theory Spec2Isabelle
  imports Main
begin

section \<open>Python values and exceptions\<close>

text \<open>
  The manager stores whatever \<open>json.load\<close> returns into object attributes with
  \<open>setattr\<close>, so attributes hold dynamically typed values. \<open>pyval\<close> covers the JSON
  values (numbers are integers here; no claim looks at a float) and two kinds of object
  reference an attribute of a schedule can hold: a \<open>ScriptRunner\<close> (an index into the
  store of runner objects) and the one \<open>Manager\<close>. A dict is the list of its items, in
  the order in which it is iterated; the keys of a dict are distinct.
\<close>

datatype pyval =
    PNone
  | PBool bool
  | PInt int
  | PStr string
  | PList "pyval list"
  | PDict "(string \<times> pyval) list"
  | PRunner nat
  | PManager

datatype error =
    AttributeError
  | KeyError
  | IndexError
  | TypeError
  | ValueError
  | IOError
  | OverflowError
  | UnicodeEncodeError
  | PMUserError pyval

type_synonym timestamp = int

text \<open>Truth value of an object, as \<open>if x\<close>, \<open>not x\<close> and \<open>x and y\<close> test it.\<close>

fun truthy :: "pyval \<Rightarrow> bool" where
  "truthy PNone = False"
| "truthy (PBool b) = b"
| "truthy (PInt i) = (i \<noteq> 0)"
| "truthy (PStr s) = (s \<noteq> [])"
| "truthy (PList xs) = (xs \<noteq> [])"
| "truthy (PDict kvs) = (kvs \<noteq> [])"
| "truthy (PRunner r) = True"
| "truthy PManager = True"

text \<open>\<open>v[key]\<close> with a string key: only a dict accepts it.\<close>

fun py_getitem :: "pyval \<Rightarrow> string \<Rightarrow> error + pyval" where
  "py_getitem (PDict kvs) key =
     (case map_of kvs key of None \<Rightarrow> Inl KeyError | Some v \<Rightarrow> Inr v)"
| "py_getitem v key = Inl TypeError"

text \<open>\<open>for x in v\<close>: a list yields its items, a dict its keys, a string its characters.\<close>

fun py_iter :: "pyval \<Rightarrow> error + pyval list" where
  "py_iter (PList xs) = Inr xs"
| "py_iter (PDict kvs) = Inr (map (\<lambda>kv. PStr (fst kv)) kvs)"
| "py_iter (PStr s) = Inr (map (\<lambda>c. PStr [c]) s)"
| "py_iter v = Inl TypeError"

text \<open>\<open>v.items()\<close>: only a dict has the method.\<close>

fun py_items :: "pyval \<Rightarrow> error + (string \<times> pyval) list" where
  "py_items (PDict kvs) = Inr kvs"
| "py_items v = Inl AttributeError"

text \<open>A value used as a list index: integers, and booleans as 0 and 1.\<close>

fun py_index :: "pyval \<Rightarrow> int option" where
  "py_index (PInt i) = Some i"
| "py_index (PBool b) = Some (if b then 1 else 0)"
| "py_index v = None"

text \<open>
  List indexing as Python does it: a negative index counts from the end, an index
  outside \<open>-len .. len - 1\<close> raises \<open>IndexError\<close>. Subscription reports an index
  that does not fit the machine's index type as \<open>IndexError\<close> too.
\<close>

definition in_bounds :: "'a list \<Rightarrow> int \<Rightarrow> bool" where
  "in_bounds xs i = (- int (length xs) \<le> i \<and> i < int (length xs))"

definition position :: "'a list \<Rightarrow> int \<Rightarrow> nat" where
  "position xs i = nat (if i < 0 then int (length xs) + i else i)"

definition list_getitem :: "'a list \<Rightarrow> int \<Rightarrow> error + 'a" where
  "list_getitem xs i = (if in_bounds xs i then Inr (xs ! position xs i) else Inl IndexError)"

definition list_setitem :: "'a list \<Rightarrow> int \<Rightarrow> 'a \<Rightarrow> error + 'a list" where
  "list_setitem xs i x =
     (if in_bounds xs i then Inr (xs[position xs i := x]) else Inl IndexError)"

text \<open>
  \<open>list.pop(i)\<close> converts its argument to the index type first (64 bits here) and
  raises \<open>OverflowError\<close> when it does not fit; only then is the range checked.
\<close>

definition fits_ssize_t :: "int \<Rightarrow> bool" where
  "fits_ssize_t i = (- (2 ^ 63) \<le> i \<and> i < 2 ^ 63)"

definition list_pop :: "'a list \<Rightarrow> int \<Rightarrow> error + 'a list" where
  "list_pop xs i =
     (if \<not> fits_ssize_t i then Inl OverflowError
      else if in_bounds xs i then
        Inr (take (position xs i) xs @ drop (Suc (position xs i)) xs)
      else Inl IndexError)"

text \<open>
  The manager runs under Python 2 (it imports the module \<open>Cookie\<close>). There
  \<open>json.load\<close> gives the keys of the store as \<open>unicode\<close> strings and
  \<open>setattr\<close> takes the name as a byte string: a key with a character outside ASCII
  cannot be encoded and raises \<open>UnicodeEncodeError\<close>.
\<close>

definition ascii :: "string \<Rightarrow> bool" where
  "ascii key = list_all (\<lambda>c. (of_char c :: nat) < 128) key"

section \<open>The device catalogue\<close>

text \<open>
  Modelled from the spec: the classes of devices, channels and parameters are not part of
  \<open>manager.py\<close>. The catalogue resolves a device address, a channel address and a
  parameter id to live objects: \<open>devices.query(device_address=a).get(a)\<close> gives the
  device or \<open>None\<close>, \<open>device.channel_by_address(a)\<close> the channel or \<open>KeyError\<close>,
  \<open>channel.values.get(k)\<close> the parameter or \<open>None\<close>. Only a string names an object.
  Objects of the three classes count as true. \<open>param_str\<close> is what \<open>"%s" % param\<close>
  prints.
\<close>

record parameter =
  param_id :: string
  pvalue :: pyval
  last_updated :: timestamp
  last_changed :: timestamp
  param_str :: string

record channel =
  channel_address :: string
  channel_name :: string
  channel_values :: "(string \<times> parameter) list"

record device =
  device_address :: string
  device_name :: string
  channels :: "channel list"

fun query_get :: "device list \<Rightarrow> pyval \<Rightarrow> device option" where
  "query_get cat (PStr a) = find (\<lambda>d. device_address d = a) cat"
| "query_get cat v = None"

fun channel_by_address :: "device \<Rightarrow> pyval \<Rightarrow> error + channel" where
  "channel_by_address d (PStr a) =
     (case find (\<lambda>c. channel_address c = a) (channels d) of
        None \<Rightarrow> Inl KeyError | Some c \<Rightarrow> Inr c)"
| "channel_by_address d v = Inl KeyError"

fun values_get :: "channel \<Rightarrow> pyval \<Rightarrow> parameter option" where
  "values_get c (PStr k) = map_of (channel_values c) k"
| "values_get c v = None"

section \<open>The event log (class Events)\<close>

record event =
  ev_time :: timestamp
  ev_time_changed :: timestamp
  ev_param :: parameter
  ev_value :: pyval
  ev_formated_value :: string

record event_log =
  events :: "event list"
  num_events_total :: int

definition Events_init :: event_log where
  "Events_init = \<lparr>events = [], num_events_total = 0\<rparr>"

definition add_event :: "event \<Rightarrow> event_log \<Rightarrow> event_log" where
  "add_event event_dict log =
     (let log1 = log\<lparr>num_events_total := num_events_total log + 1\<rparr>;
          log2 = log1\<lparr>events := events log1 @ [event_dict]\<rparr>
      in if length (events log2) > 1000 then log2\<lparr>events := tl (events log2)\<rparr> else log2)"

text \<open>A sequence of calls of \<open>add_event\<close>, oldest first.\<close>

fun add_events :: "event list \<Rightarrow> event_log \<Rightarrow> event_log" where
  "add_events [] log = log"
| "add_events (e # es) log = add_events es (add_event e log)"


section \<open>Script runners (class ScriptRunner)\<close>

text \<open>
  A \<open>ScriptRunner\<close> is a thread object. The objects created so far are kept in a store,
  a list in order of creation; a schedule's \<open>_runner\<close> attribute refers to one by its
  index. \<open>alive\<close> is what \<open>is_alive()\<close> answers: false for a thread not yet started,
  true from \<open>start()\<close> until the thread's \<open>run\<close> ends.
\<close>

record script_runner =
  runner_script :: pyval
  output_lines :: "string list"
  exit_code :: "int option"
  started :: timestamp
  finished :: "timestamp option"
  alive :: bool

definition ScriptRunner :: "pyval \<Rightarrow> timestamp \<Rightarrow> script_runner" where
  "ScriptRunner scr now =
     \<lparr>runner_script = scr, output_lines = [], exit_code = None, started = now,
      finished = None, alive = False\<rparr>"

definition start :: "script_runner \<Rightarrow> script_runner" where
  "start r = r\<lparr>alive := True\<rparr>"

text \<open>
  The end of the thread's \<open>run\<close> after the child process has exited with code \<open>code\<close>
  at time \<open>now\<close>, having printed \<open>lines\<close>. This step is taken by the runner's own
  thread, at a moment the scheduler does not choose.
\<close>

definition run_finished :: "string list \<Rightarrow> int \<Rightarrow> timestamp \<Rightarrow> script_runner \<Rightarrow> script_runner" where
  "run_finished lines code now r =
     r\<lparr>output_lines := output_lines r @ lines, finished := Some now, exit_code := Some code,
       alive := False\<rparr>"

text \<open>
  \<open>is_alive()\<close> through a reference. A reference always points into the store; the
  bound only keeps the function total.
\<close>

definition is_alive :: "script_runner list \<Rightarrow> nat \<Rightarrow> bool" where
  "is_alive rs r = (r < length rs \<and> alive (rs ! r))"

section \<open>Conditions (class Condition and its subclasses)\<close>

datatype cond_class =
    ConditionOnStartup
  | ConditionOnCCUInitialized
  | ConditionOnDeviceEvent
  | ConditionOnTime

fun type_name :: "cond_class \<Rightarrow> string" where
  "type_name ConditionOnStartup = ''on_startup''"
| "type_name ConditionOnCCUInitialized = ''on_ccu_initialized''"
| "type_name ConditionOnDeviceEvent = ''on_device_event''"
| "type_name ConditionOnTime = ''on_time''"

text \<open>\<open>Condition.__subclasses__()\<close>, in the order the classes are defined.\<close>

definition Condition_types :: "cond_class list" where
  "Condition_types =
     [ConditionOnStartup, ConditionOnCCUInitialized, ConditionOnDeviceEvent, ConditionOnTime]"

definition Condition_get :: "pyval \<Rightarrow> cond_class option" where
  "Condition_get tn = find (\<lambda>subclass. PStr (type_name subclass) = tn) Condition_types"

text \<open>
  A condition object: its class, the instance attributes that \<open>setattr\<close> and
  \<open>add_condition\<close> write (\<open>attrs\<close>, among them \<open>_manager\<close> and \<open>id\<close>), and the four
  attributes that \<open>ConditionOnDeviceEvent.__init__\<close> creates and only that class's
  methods read and write. An attribute that \<open>attrs\<close> holds under the name of a method
  or of the class attribute \<open>type_name\<close> hides it, as an instance attribute does.
\<close>

record condition =
  cclass :: cond_class
  attrs :: "string \<rightharpoonup> pyval"
  device :: "device option"
  channel :: "channel option"
  param :: "parameter option"
  event_type :: pyval

definition Condition :: "cond_class \<Rightarrow> pyval \<Rightarrow> condition" where
  "Condition cls manager =
     \<lparr>cclass = cls, attrs = [''_manager'' \<mapsto> manager], device = None, channel = None,
      param = None, event_type = PNone\<rparr>"

text \<open>
  \<open>setattr(self, key, val)\<close> on a condition. The names \<open>__class__\<close>, \<open>__dict__\<close>
  and \<open>__weakref__\<close> belong to descriptors of every object: a JSON value is no class,
  only a dict can become the instance dictionary, and it then replaces all attributes;
  \<open>__weakref__\<close> cannot be written.
\<close>

definition cond_setattr :: "string \<Rightarrow> pyval \<Rightarrow> condition \<Rightarrow> error + condition" where
  "cond_setattr key val c =
     (if \<not> ascii key then Inl UnicodeEncodeError
      else if key = ''__class__'' then Inl TypeError
      else if key = ''__weakref__'' then Inl AttributeError
      else if key = ''__dict__'' then
        (case val of PDict d \<Rightarrow> Inr (c\<lparr>attrs := map_of d\<rparr>) | _ \<Rightarrow> Inl TypeError)
      else Inr (c\<lparr>attrs := (attrs c)(key \<mapsto> val)\<rparr>))"

text \<open>\<open>Condition.from_config\<close>: every key of the record becomes an attribute.\<close>

fun setattrs :: "(string \<times> pyval) list \<Rightarrow> condition \<Rightarrow> error + condition" where
  "setattrs [] c = Inr c"
| "setattrs ((key, val) # kvs) c =
     (case cond_setattr key val c of Inl e \<Rightarrow> Inl e | Inr c' \<Rightarrow> setattrs kvs c')"

definition Condition_from_config :: "condition \<Rightarrow> pyval \<Rightarrow> error + condition" where
  "Condition_from_config c cfg =
     (case py_items cfg of Inl e \<Rightarrow> Inl e | Inr kvs \<Rightarrow> setattrs kvs c)"

text \<open>
  \<open>ConditionOnDeviceEvent.from_config\<close>. \<open>ccu\<close> is the manager's \<open>ccu\<close> attribute:
  \<open>None\<close> when the connection is disabled, else the device catalogue. The callee
  \<open>self._manager.ccu.devices.query\<close> is evaluated before its argument. The lookup of
  the channel, with the subscription \<open>cfg["channel_address"]\<close>, stands in a \<open>try\<close>
  block that returns on \<open>KeyError\<close>.
\<close>

definition ConditionOnDeviceEvent_from_config ::
    "device list option \<Rightarrow> condition \<Rightarrow> pyval \<Rightarrow> error + condition" where
  "ConditionOnDeviceEvent_from_config ccu c cfg =
     (if attrs c ''_manager'' \<noteq> Some PManager then Inl AttributeError
      else case ccu of
        None \<Rightarrow> Inl AttributeError
      | Some cat \<Rightarrow>
         (case py_getitem cfg ''device_address'' of
            Inl e \<Rightarrow> Inl e
          | Inr da \<Rightarrow>
             (case query_get cat da of
                None \<Rightarrow> Inr (c\<lparr>device := None\<rparr>)
              | Some d \<Rightarrow>
                 (case (case py_getitem cfg ''channel_address'' of
                          Inl e \<Rightarrow> Inl e
                        | Inr ca \<Rightarrow> channel_by_address d ca) of
                    Inl e \<Rightarrow> (if e = KeyError then Inr (c\<lparr>device := Some d\<rparr>) else Inl e)
                  | Inr ch \<Rightarrow>
                     (case py_getitem cfg ''param_id'' of
                        Inl e \<Rightarrow> Inl e
                      | Inr pid \<Rightarrow>
                         (case values_get ch pid of
                            None \<Rightarrow>
                              Inr (c\<lparr>device := Some d, channel := Some ch, param := None\<rparr>)
                          | Some p \<Rightarrow>
                             (case py_getitem cfg ''event_type'' of
                                Inl e \<Rightarrow> Inl e
                              | Inr et \<Rightarrow>
                                  Inr (c\<lparr>device := Some d, channel := Some ch,
                                         param := Some p, event_type := et\<rparr>))))))))"

text \<open>\<open>condition.from_config(cfg)\<close>, dispatched on the class of the object.\<close>

definition cond_from_config :: "device list option \<Rightarrow> condition \<Rightarrow> pyval \<Rightarrow> error + condition" where
  "cond_from_config ccu c cfg =
     (if attrs c ''from_config'' \<noteq> None then Inl TypeError
      else if cclass c = ConditionOnDeviceEvent then ConditionOnDeviceEvent_from_config ccu c cfg
      else Condition_from_config c cfg)"

text \<open>\<open>self.type_name\<close>: the instance attribute if there is one, else the class's.\<close>

definition get_type_name :: "condition \<Rightarrow> pyval" where
  "get_type_name c =
     (case attrs c ''type_name'' of None \<Rightarrow> PStr (type_name (cclass c)) | Some v \<Rightarrow> v)"

definition Condition_to_config :: "condition \<Rightarrow> (string \<times> pyval) list" where
  "Condition_to_config c = [(''type_name'', get_type_name c)]"

text \<open>
  \<open>ConditionOnDeviceEvent.to_config\<close>: \<open>self.device.address\<close> and its two siblings
  raise \<open>AttributeError\<close> on \<open>None\<close>.
\<close>

definition ConditionOnDeviceEvent_to_config :: "condition \<Rightarrow> error + (string \<times> pyval) list" where
  "ConditionOnDeviceEvent_to_config c =
     (case device c of
        None \<Rightarrow> Inl AttributeError
      | Some d \<Rightarrow>
         (case channel c of
            None \<Rightarrow> Inl AttributeError
          | Some ch \<Rightarrow>
             (case param c of
                None \<Rightarrow> Inl AttributeError
              | Some p \<Rightarrow>
                  Inr (Condition_to_config c @
                    [(''device_address'', PStr (device_address d)),
                     (''channel_address'', PStr (channel_address ch)),
                     (''param_id'', PStr (param_id p)),
                     (''event_type'', event_type c)]))))"

definition cond_to_config :: "condition \<Rightarrow> error + pyval" where
  "cond_to_config c =
     (if attrs c ''to_config'' \<noteq> None then Inl TypeError
      else if cclass c = ConditionOnDeviceEvent then
        (case ConditionOnDeviceEvent_to_config c of
           Inl e \<Rightarrow> Inl e | Inr kvs \<Rightarrow> Inr (PDict kvs))
      else Inr (PDict (Condition_to_config c)))"

section \<open>Schedules (class Schedule)\<close>

text \<open>
  A schedule is its instance dictionary. \<open>sdict\<close> holds every attribute but
  \<open>conditions\<close>: after \<open>__init__\<close> these are \<open>_manager\<close>, \<open>id\<close>, \<open>name\<close>,
  \<open>keep_running\<close>, \<open>script\<close>, \<open>last_triggered\<close> and \<open>_runner\<close>, and
  \<open>from_config\<close> can add, overwrite or, through the key \<open>__dict__\<close>, remove any of
  them. An entry under the name of a method hides the method. The attribute
  \<open>conditions\<close> is kept apart: normally a list of condition objects, it can come to
  hold JSON once the instance dictionary has been replaced.
\<close>

datatype conditions_attr =
    Absent
  | Other pyval
  | Objects "pyval list" "condition list"

text \<open>
  \<open>Absent\<close>: the schedule has no attribute \<open>conditions\<close>. \<open>Objects js cs\<close>: it is a
  list, of the JSON items \<open>js\<close> followed by the condition objects \<open>cs\<close>. \<open>Other v\<close>:
  it is the JSON value \<open>v\<close>, put there as it was.
\<close>

record schedule =
  sdict :: "string \<rightharpoonup> pyval"
  cond_attr :: conditions_attr

definition Schedule :: "pyval \<Rightarrow> schedule" where
  "Schedule mgr =
     \<lparr>sdict = [''_manager'' \<mapsto> mgr, ''id'' \<mapsto> PNone, ''name'' \<mapsto> PStr '''',
               ''keep_running'' \<mapsto> PBool False, ''script'' \<mapsto> PStr '''',
               ''last_triggered'' \<mapsto> PNone, ''_runner'' \<mapsto> PNone],
      cond_attr = Objects [] []\<rparr>"

text \<open>Reading a data attribute: \<open>AttributeError\<close> when the object has none of that name.\<close>

definition getattr :: "schedule \<Rightarrow> string \<Rightarrow> error + pyval" where
  "getattr s attr = (case sdict s attr of None \<Rightarrow> Inl AttributeError | Some v \<Rightarrow> Inr v)"

text \<open>The condition objects of a schedule, when its \<open>conditions\<close> is a list.\<close>

definition conditions :: "schedule \<Rightarrow> condition list" where
  "conditions s = (case cond_attr s of Objects js cs \<Rightarrow> cs | _ \<Rightarrow> [])"

text \<open>What an assignment of a JSON value to \<open>conditions\<close> leaves in the attribute.\<close>

definition conditions_of_json :: "pyval \<Rightarrow> conditions_attr" where
  "conditions_of_json v = (case v of PList js \<Rightarrow> Objects js [] | _ \<Rightarrow> Other v)"

text \<open>
  \<open>is_running\<close>: \<open>self._runner and self._runner.is_alive()\<close>, as a condition of
  \<open>if\<close>. A true value that is no runner has no method \<open>is_alive\<close>.
\<close>

definition is_running :: "schedule \<Rightarrow> script_runner list \<Rightarrow> error + bool" where
  "is_running s rs =
     (case getattr s ''_runner'' of
        Inl e \<Rightarrow> Inl e
      | Inr (PRunner r) \<Rightarrow> Inr (is_alive rs r)
      | Inr v \<Rightarrow> if truthy v then Inl AttributeError else Inr False)"

definition add_runner :: "schedule \<Rightarrow> nat \<Rightarrow> schedule" where
  "add_runner s r = s\<lparr>sdict := (sdict s)(''_runner'' \<mapsto> PRunner r)\<rparr>"

text \<open>
  \<open>add_condition\<close>: \<open>len(self.conditions)\<close>, then \<open>condition.id = num\<close>, then
  \<open>self.conditions.append(condition)\<close>. A string or a dict has a length and no
  \<open>append\<close>; the other values that are no list have no length.
\<close>

definition add_condition :: "schedule \<Rightarrow> condition \<Rightarrow> error + schedule" where
  "add_condition s c =
     (case cond_attr s of
        Absent \<Rightarrow> Inl AttributeError
      | Objects js cs \<Rightarrow>
          (let num = int (length js + length cs)
           in Inr (s\<lparr>cond_attr := Objects js (cs @ [c\<lparr>attrs := (attrs c)(''id'' \<mapsto> PInt num)\<rparr>])\<rparr>))
      | Other v \<Rightarrow>
          (case v of
             PList js \<Rightarrow>
               Inr (s\<lparr>cond_attr :=
                      Objects js [c\<lparr>attrs := (attrs c)(''id'' \<mapsto> PInt (int (length js)))\<rparr>]\<rparr>)
           | PStr x \<Rightarrow> Inl AttributeError
           | PDict d \<Rightarrow> Inl AttributeError
           | _ \<Rightarrow> Inl TypeError))"

definition clear_conditions :: "schedule \<Rightarrow> schedule" where
  "clear_conditions s = s\<lparr>cond_attr := Objects [] []\<rparr>"

text \<open>
  \<open>setattr(self, key, val)\<close> on a schedule. \<open>is_running\<close> is a property without a
  setter. \<open>__class__\<close>, \<open>__dict__\<close> and \<open>__weakref__\<close> are as for a condition; a
  dict given for \<open>__dict__\<close> becomes the instance dictionary, so every attribute it
  does not name is gone.
\<close>

definition setattr :: "string \<Rightarrow> pyval \<Rightarrow> schedule \<Rightarrow> error + schedule" where
  "setattr key val s =
     (if \<not> ascii key then Inl UnicodeEncodeError
      else if key = ''is_running'' then Inl AttributeError
      else if key = ''__class__'' then Inl TypeError
      else if key = ''__weakref__'' then Inl AttributeError
      else if key = ''__dict__'' then
        (case val of
           PDict d \<Rightarrow>
             Inr \<lparr>sdict = (map_of d)(''conditions'' := None),
                  cond_attr = (case map_of d ''conditions'' of
                             None \<Rightarrow> Absent | Some v \<Rightarrow> conditions_of_json v)\<rparr>
         | _ \<Rightarrow> Inl TypeError)
      else if key = ''conditions'' then Inr (s\<lparr>cond_attr := conditions_of_json val\<rparr>)
      else Inr (s\<lparr>sdict := (sdict s)(key \<mapsto> val)\<rparr>))"

text \<open>The inner loop of \<open>Schedule.from_config\<close> over the condition records.\<close>

fun load_conditions :: "device list option \<Rightarrow> pyval list \<Rightarrow> schedule \<Rightarrow> error + schedule" where
  "load_conditions ccu [] s = Inr s"
| "load_conditions ccu (condition_cfg # rest) s =
     (case py_getitem condition_cfg ''type_name'' of
        Inl e \<Rightarrow> Inl e
      | Inr tn \<Rightarrow>
         (case Condition_get tn of
            None \<Rightarrow> Inl (PMUserError tn)
          | Some cls \<Rightarrow>
             (case getattr s ''_manager'' of
                Inl e \<Rightarrow> Inl e
              | Inr mgr \<Rightarrow>
                 (case cond_from_config ccu (Condition cls mgr) condition_cfg of
                    Inl e \<Rightarrow> Inl e
                  | Inr c \<Rightarrow>
                      if sdict s ''add_condition'' \<noteq> None then Inl TypeError
                      else
                        (case add_condition s c of
                           Inl e \<Rightarrow> Inl e
                         | Inr s' \<Rightarrow> load_conditions ccu rest s')))))"

text \<open>The outer loop of \<open>Schedule.from_config\<close> over \<open>cfg.items()\<close>.\<close>

fun from_config_items ::
    "device list option \<Rightarrow> (string \<times> pyval) list \<Rightarrow> schedule \<Rightarrow> error + schedule" where
  "from_config_items ccu [] s = Inr s"
| "from_config_items ccu ((key, val) # kvs) s =
     (if key \<noteq> ''conditions'' then
        (case setattr key val s of
           Inl e \<Rightarrow> Inl e
         | Inr s' \<Rightarrow> from_config_items ccu kvs s')
      else
        (case py_iter val of
           Inl e \<Rightarrow> Inl e
         | Inr cfgs \<Rightarrow>
            (case load_conditions ccu cfgs s of
               Inl e \<Rightarrow> Inl e
             | Inr s' \<Rightarrow> from_config_items ccu kvs s')))"

definition from_config :: "device list option \<Rightarrow> schedule \<Rightarrow> pyval \<Rightarrow> error + schedule" where
  "from_config ccu s cfg =
     (case py_items cfg of Inl e \<Rightarrow> Inl e | Inr kvs \<Rightarrow> from_config_items ccu kvs s)"

text \<open>The list comprehension \<open>[ c.to_config() for c in self.conditions ]\<close>.\<close>

fun conds_to_config :: "condition list \<Rightarrow> error + pyval list" where
  "conds_to_config [] = Inr []"
| "conds_to_config (c # cs) =
     (case cond_to_config c of
        Inl e \<Rightarrow> Inl e
      | Inr cfg \<Rightarrow>
         (case conds_to_config cs of Inl e \<Rightarrow> Inl e | Inr cfgs \<Rightarrow> Inr (cfg # cfgs)))"

text \<open>The same over the attribute as it is: a JSON item has no method \<open>to_config\<close>.\<close>

definition conditions_to_config :: "schedule \<Rightarrow> error + pyval list" where
  "conditions_to_config s =
     (case cond_attr s of
        Absent \<Rightarrow> Inl AttributeError
      | Objects js cs \<Rightarrow> if js \<noteq> [] then Inl AttributeError else conds_to_config cs
      | Other v \<Rightarrow>
          (case py_iter v of
             Inl e \<Rightarrow> Inl e
           | Inr xs \<Rightarrow> if xs \<noteq> [] then Inl AttributeError else Inr []))"

definition to_config :: "schedule \<Rightarrow> error + pyval" where
  "to_config s =
     (if sdict s ''to_config'' \<noteq> None then Inl TypeError
      else case getattr s ''name'' of
        Inl e \<Rightarrow> Inl e
      | Inr n \<Rightarrow>
         (case getattr s ''keep_running'' of
            Inl e \<Rightarrow> Inl e
          | Inr k \<Rightarrow>
             (case getattr s ''script'' of
                Inl e \<Rightarrow> Inl e
              | Inr scr \<Rightarrow>
                 (case conditions_to_config s of
                    Inl e \<Rightarrow> Inl e
                  | Inr cfgs \<Rightarrow>
                      Inr (PDict [(''name'', n), (''keep_running'', k),
                                  (''script'', scr), (''conditions'', PList cfgs)])))))"

section \<open>The scheduler (class Scheduler)\<close>

record scheduler =
  schedules :: "schedule list"
  on_startup_executed :: bool
  on_ccu_init_executed :: bool

definition Scheduler_init :: scheduler where
  "Scheduler_init =
     \<lparr>schedules = [], on_startup_executed = False, on_ccu_init_executed = False\<rparr>"

definition exists :: "scheduler \<Rightarrow> int \<Rightarrow> bool" where
  "exists sch schedule_id =
     (case list_getitem (schedules sch) schedule_id of Inl e \<Rightarrow> False | Inr s \<Rightarrow> True)"

definition get :: "scheduler \<Rightarrow> int \<Rightarrow> error + schedule" where
  "get sch schedule_id = list_getitem (schedules sch) schedule_id"

definition add :: "scheduler \<Rightarrow> schedule \<Rightarrow> error + scheduler" where
  "add sch s =
     (case getattr s ''id'' of
        Inl e \<Rightarrow> Inl e
      | Inr v \<Rightarrow>
          if v = PNone then
            (let num = int (length (schedules sch))
             in Inr (sch\<lparr>schedules :=
                       schedules sch @ [s\<lparr>sdict := (sdict s)(''id'' \<mapsto> PInt num)\<rparr>]\<rparr>))
          else case py_index v of
            None \<Rightarrow> Inl TypeError
          | Some i \<Rightarrow>
             (case list_setitem (schedules sch) i s of
                Inl e \<Rightarrow> Inl e
              | Inr ss \<Rightarrow> Inr (sch\<lparr>schedules := ss\<rparr>)))"

text \<open>\<open>remove\<close> catches \<open>IndexError\<close> and nothing else.\<close>

definition remove :: "scheduler \<Rightarrow> int \<Rightarrow> error + scheduler" where
  "remove sch schedule_id =
     (case list_pop (schedules sch) schedule_id of
        Inl e \<Rightarrow> if e = IndexError then Inr sch else Inl e
      | Inr ss \<Rightarrow> Inr (sch\<lparr>schedules := ss\<rparr>))"

text \<open>
  What \<open>open\<close> and \<open>json.load\<close> give \<open>Scheduler.load\<close>: an \<open>IOError\<close> with its
  \<open>errno\<close>, a file that is not JSON, or the parsed value.
\<close>

datatype file_read = IOError_errno int | Not_JSON | Parsed pyval

text \<open>The outcome of a call that may end the process with \<open>sys.exit\<close>.\<close>

datatype 'a outcome = Exits int | Returns 'a

fun load_schedules ::
    "device list option \<Rightarrow> pyval list \<Rightarrow> scheduler \<Rightarrow> error + scheduler" where
  "load_schedules ccu [] sch = Inr sch"
| "load_schedules ccu (schedule_cfg # rest) sch =
     (case from_config ccu (Schedule PManager) schedule_cfg of
        Inl e \<Rightarrow> Inl e
      | Inr s \<Rightarrow>
         (case add sch s of
            Inl e \<Rightarrow> Inl e
          | Inr sch' \<Rightarrow> load_schedules ccu rest sch'))"

definition read_schedule_config :: "file_read \<Rightarrow> error + pyval" where
  "read_schedule_config f =
     (case f of
        IOError_errno n \<Rightarrow> if n = 2 then Inr (PList []) else Inl IOError
      | Not_JSON \<Rightarrow> Inl ValueError
      | Parsed v \<Rightarrow> Inr v)"

definition load :: "device list option \<Rightarrow> file_read \<Rightarrow> scheduler \<Rightarrow> scheduler outcome" where
  "load ccu f sch =
     (case read_schedule_config f of
        Inl e \<Rightarrow> Exits 1
      | Inr schedule_config \<Rightarrow>
         (case py_iter schedule_config of
            Inl e \<Rightarrow> Exits 1
          | Inr cfgs \<Rightarrow>
             (case load_schedules ccu cfgs sch of
                Inl e \<Rightarrow> Exits 1
              | Inr sch' \<Rightarrow> Returns sch')))"

text \<open>
  \<open>Scheduler.save\<close>: the value handed to \<open>json.dumps\<close> and written to the file, or
  the exception of the first schedule that cannot be turned into a record.
\<close>

fun schedules_to_config :: "schedule list \<Rightarrow> error + pyval list" where
  "schedules_to_config [] = Inr []"
| "schedules_to_config (s # ss) =
     (case to_config s of
        Inl e \<Rightarrow> Inl e
      | Inr cfg \<Rightarrow>
         (case schedules_to_config ss of Inl e \<Rightarrow> Inl e | Inr cfgs \<Rightarrow> Inr (cfg # cfgs)))"

definition save :: "scheduler \<Rightarrow> error + pyval" where
  "save sch =
     (case schedules_to_config (schedules sch) of
        Inl e \<Rightarrow> Inl e
      | Inr cfgs \<Rightarrow> Inr (PList cfgs))"

text \<open>
  \<open>Scheduler.execute\<close>. An exception leaves in place what was done before it, and the
  loop of \<open>run\<close> goes on from that state, so the result is the state together with the
  exception, if any. The log line of the running case reads \<open>schedule.name\<close>. \<open>now\<close>
  is the reading of \<open>time.time()\<close> in the constructor of the runner.
\<close>

definition execute ::
    "timestamp \<Rightarrow> schedule \<Rightarrow> script_runner list \<Rightarrow>
     error option \<times> schedule \<times> script_runner list" where
  "execute now s rs =
     (case is_running s rs of
        Inl e \<Rightarrow> (Some e, s, rs)
      | Inr running \<Rightarrow>
          if running then
            (case getattr s ''name'' of
               Inl e \<Rightarrow> (Some e, s, rs)
             | Inr n \<Rightarrow> (None, s, rs))
          else
            (case getattr s ''script'' of
               Inl e \<Rightarrow> (Some e, s, rs)
             | Inr scr \<Rightarrow>
                (let r = length rs;
                     rs1 = rs @ [ScriptRunner scr now]
                 in if sdict s ''add_runner'' \<noteq> None then (Some TypeError, s, rs1)
                    else (None, add_runner s r, rs1[r := start (rs1 ! r)]))))"

text \<open>
  \<open>isinstance(condition, cls)\<close> for some item of \<open>schedule.conditions\<close>; a JSON item
  is an instance of no condition class.
\<close>

definition has_condition_type :: "cond_class \<Rightarrow> schedule \<Rightarrow> error + bool" where
  "has_condition_type cls s =
     (case cond_attr s of
        Absent \<Rightarrow> Inl AttributeError
      | Objects js cs \<Rightarrow> Inr (list_ex (\<lambda>c. cclass c = cls) cs)
      | Other v \<Rightarrow> (case py_iter v of Inl e \<Rightarrow> Inl e | Inr xs \<Rightarrow> Inr False))"

text \<open>
  The loop \<open>for schedule in self._schedules_with_condition_type(cls): self.execute(schedule)\<close>,
  on the schedules from position \<open>i\<close> on. Each schedule is updated in place; the first
  exception, of the generator or of \<open>execute\<close>, ends the loop. Besides the state, the
  function reports the calls of \<open>execute\<close> it made, as pairs of the class and the
  position of the schedule.
\<close>

type_synonym calls = "(cond_class \<times> nat) list"

fun execute_matching ::
    "timestamp \<Rightarrow> cond_class \<Rightarrow> nat \<Rightarrow> schedule list \<Rightarrow> script_runner list \<Rightarrow>
     error option \<times> schedule list \<times> script_runner list \<times> calls" where
  "execute_matching now cls i [] rs = (None, [], rs, [])"
| "execute_matching now cls i (s # ss) rs =
     (case has_condition_type cls s of
        Inl e \<Rightarrow> (Some e, s # ss, rs, [])
      | Inr matched \<Rightarrow>
          if matched then
            (case execute now s rs of
               (Some e, s', rs') \<Rightarrow> (Some e, s' # ss, rs', [(cls, i)])
             | (None, s', rs') \<Rightarrow>
                (case execute_matching now cls (Suc i) ss rs' of
                   (e, ss', rs'', tr) \<Rightarrow> (e, s' # ss', rs'', (cls, i) # tr)))
          else
            (case execute_matching now cls (Suc i) ss rs of
               (e, ss', rs', tr) \<Rightarrow> (e, s # ss', rs', tr)))"

text \<open>
  One pass through the body of \<open>while True\<close> in \<open>Scheduler.run\<close>. \<open>evinit\<close> is the
  manager's \<open>_events_initialized\<close> at that moment. An exception in the \<open>try\<close> block
  skips the rest of the block and is logged.
\<close>

definition run_iteration ::
    "timestamp \<Rightarrow> bool \<Rightarrow> scheduler \<Rightarrow> script_runner list \<Rightarrow>
     scheduler \<times> script_runner list \<times> calls" where
  "run_iteration now evinit sch rs =
     (case (if \<not> on_startup_executed sch then
              (case execute_matching now ConditionOnStartup 0 (schedules sch) rs of
                 (None, ss, rs', tr) \<Rightarrow>
                   (None, sch\<lparr>schedules := ss, on_startup_executed := True\<rparr>, rs', tr)
               | (Some e, ss, rs', tr) \<Rightarrow> (Some e, sch\<lparr>schedules := ss\<rparr>, rs', tr))
            else (None, sch, rs, [])) of
        (Some e, sch1, rs1, tr1) \<Rightarrow> (sch1, rs1, tr1)
      | (None, sch1, rs1, tr1) \<Rightarrow>
          if \<not> on_ccu_init_executed sch1 \<and> evinit then
            (case execute_matching now ConditionOnCCUInitialized 0 (schedules sch1) rs1 of
               (None, ss, rs2, tr2) \<Rightarrow>
                 (sch1\<lparr>schedules := ss, on_ccu_init_executed := True\<rparr>, rs2, tr1 @ tr2)
             | (Some e, ss, rs2, tr2) \<Rightarrow> (sch1\<lparr>schedules := ss\<rparr>, rs2, tr1 @ tr2))
          else (sch1, rs1, tr1))"

text \<open>
  The loop never ends by itself, so it is run for as many passes as there are entries in
  a list. An entry gives what the rest of the process did before that pass: the clock,
  the manager's \<open>_events_initialized\<close>, and the runners whose threads have ended since,
  each with its exit code.
\<close>

record tick =
  tick_now :: timestamp
  tick_events_initialized :: bool
  tick_finished :: "(nat \<times> int) list"

fun threads_finish :: "timestamp \<Rightarrow> (nat \<times> int) list \<Rightarrow> script_runner list \<Rightarrow> script_runner list" where
  "threads_finish now [] rs = rs"
| "threads_finish now ((r, code) # fs) rs =
     threads_finish now fs
       (if r < length rs \<and> alive (rs ! r) then rs[r := run_finished [] code now (rs ! r)]
        else rs)"

fun run :: "tick list \<Rightarrow> scheduler \<Rightarrow> script_runner list \<Rightarrow>
    scheduler \<times> script_runner list \<times> calls" where
  "run [] sch rs = (sch, rs, [])"
| "run (t # ts) sch rs =
     (case run_iteration (tick_now t) (tick_events_initialized t) sch
             (threads_finish (tick_now t) (tick_finished t) rs) of
        (sch1, rs1, tr1) \<Rightarrow>
          (case run ts sch1 rs1 of (sch2, rs2, tr2) \<Rightarrow> (sch2, rs2, tr1 @ tr2)))"

section \<open>The manager (class Manager)\<close>



section \<open>The specification's event matching\<close>


section \<open>Notions used in the statements\<close>

text \<open>
  A stored device-event record whose references do not all resolve in the catalogue: the
  keys that \<open>from_config\<close> reads on its way are there, and the device, or the channel
  of the device, or the parameter of the channel is not found.
\<close>

definition unresolved_reference :: "device list \<Rightarrow> pyval \<Rightarrow> bool" where
  "unresolved_reference cat cfg =
     (case py_getitem cfg ''device_address'' of
        Inl e \<Rightarrow> False
      | Inr da \<Rightarrow>
         (case query_get cat da of
            None \<Rightarrow> True
          | Some d \<Rightarrow>
             (case py_getitem cfg ''channel_address'' of
                Inl e \<Rightarrow> False
              | Inr ca \<Rightarrow>
                 (case channel_by_address d ca of
                    Inl e \<Rightarrow> True
                  | Inr ch \<Rightarrow>
                     (case py_getitem cfg ''param_id'' of
                        Inl e \<Rightarrow> False
                      | Inr pid \<Rightarrow> values_get ch pid = None)))))"




text \<open>
  The class that a condition record names, if any; and the relation between a condition
  record and a condition object that has the class and the fields of the object which the
  loop of \<open>Schedule.from_config\<close> makes of the record, for a schedule whose manager is
  \<open>mgr\<close>.
\<close>

definition record_class :: "pyval \<Rightarrow> cond_class option" where
  "record_class cfg =
     (case py_getitem cfg ''type_name'' of Inl e \<Rightarrow> None | Inr tn \<Rightarrow> Condition_get tn)"

definition loads_as :: "device list option \<Rightarrow> pyval \<Rightarrow> pyval \<Rightarrow> condition \<Rightarrow> bool" where
  "loads_as ccu mgr cfg c =
     (case record_class cfg of
        None \<Rightarrow> False
      | Some cls \<Rightarrow>
         (case cond_from_config ccu (Condition cls mgr) cfg of
            Inl e \<Rightarrow> False
          | Inr c0 \<Rightarrow>
              cclass c = cclass c0 \<and> device c = device c0 \<and> channel c = channel c0 \<and>
              param c = param c0 \<and> event_type c = event_type c0))"





section \<open>Example data\<close>

text \<open>A catalogue with one device.\<close>

definition example_param :: parameter where
  "example_param =
     \<lparr>param_id = ''STATE'', pvalue = PBool True, last_updated = 100, last_changed = 100,
      param_str = ''True''\<rparr>"

definition example_channel :: channel where
  "example_channel =
     \<lparr>channel_address = ''KEQ0000001:1'', channel_name = ''Door'',
      channel_values = [(''STATE'', example_param)]\<rparr>"

definition example_device :: device where
  "example_device =
     \<lparr>device_address = ''KEQ0000001'', device_name = ''Door sensor'',
      channels = [example_channel]\<rparr>"

definition example_catalogue :: "device list" where
  "example_catalogue = [example_device]"

text \<open>Records of a schedule store, as \<open>json.load\<close> returns them.\<close>

definition device_event_record :: "string \<Rightarrow> pyval" where
  "device_event_record device_addr =
     PDict [(''type_name'', PStr ''on_device_event''),
            (''device_address'', PStr device_addr),
            (''channel_address'', PStr ''KEQ0000001:1''),
            (''param_id'', PStr ''STATE''),
            (''event_type'', PStr ''changed'')]"

definition plain_record :: "string \<Rightarrow> pyval" where
  "plain_record tn = PDict [(''type_name'', PStr tn)]"

definition schedule_record :: "string \<Rightarrow> pyval list \<Rightarrow> pyval" where
  "schedule_record nm conds =
     PDict [(''name'', PStr nm), (''keep_running'', PBool False),
            (''script'', PStr (nm @ ''.py'')), (''conditions'', PList conds)]"

text \<open>A store with a schedule whose record carries a key \<open>_runner\<close>.\<close>

definition broken_store :: pyval where
  "broken_store =
     PList [schedule_record ''backup'' [plain_record ''on_startup''],
            PDict [(''name'', PStr ''broken''), (''script'', PStr ''broken.py''),
                   (''_runner'', PStr ''x''),
                   (''conditions'', PList [plain_record ''on_startup''])]]"

text \<open>
  The schedules that \<open>load\<close> leaves in a fresh scheduler; none if the process ended.
\<close>

definition loaded :: "device list option \<Rightarrow> pyval \<Rightarrow> schedule list" where
  "loaded ccu store =
     (case load ccu (Parsed store) Scheduler_init of
        Exits n \<Rightarrow> []
      | Returns sch \<Rightarrow> schedules sch)"

definition scheduler_of :: "schedule list \<Rightarrow> scheduler" where
  "scheduler_of ss = Scheduler_init\<lparr>schedules := ss\<rparr>"

text \<open>
  A new schedule with a name, as the page that adds a schedule makes it, and a schedule
  with the id that \<open>Scheduler.add\<close> gave it.
\<close>

definition named :: "string \<Rightarrow> schedule" where
  "named nm = (Schedule PManager)\<lparr>sdict := (sdict (Schedule PManager))(''name'' \<mapsto> PStr nm)\<rparr>"

definition with_id :: "schedule \<Rightarrow> int \<Rightarrow> schedule" where
  "with_id s i = s\<lparr>sdict := (sdict s)(''id'' \<mapsto> PInt i)\<rparr>"




text \<open>
  Two passes of the background loop, the first runner having ended before the second
  pass.
\<close>

definition two_passes :: "tick list" where
  "two_passes =
     [\<lparr>tick_now = 10, tick_events_initialized = False, tick_finished = []\<rparr>,
      \<lparr>tick_now = 20, tick_events_initialized = False, tick_finished = [(0, 0)]\<rparr>]"

text \<open>
  A schedule record with a key that names no attribute of the class and with the key
  \<open>_runner\<close>, and the schedule that \<open>from_config\<close> makes of it.
\<close>

definition coloured_record :: "(string \<times> pyval) list" where
  "coloured_record =
     [(''name'', PStr ''light''), (''colour'', PStr ''red''), (''_runner'', PStr ''x''),
      (''conditions'', PList [plain_record ''on_startup''])]"

definition coloured_schedule :: schedule where
  "coloured_schedule =
     \<lparr>sdict = [''_manager'' \<mapsto> PManager, ''id'' \<mapsto> PNone, ''name'' \<mapsto> PStr ''light'',
               ''keep_running'' \<mapsto> PBool False, ''script'' \<mapsto> PStr [],
               ''last_triggered'' \<mapsto> PNone, ''_runner'' \<mapsto> PStr ''x'',
               ''colour'' \<mapsto> PStr ''red''],
      cond_attr = Objects []
        [\<lparr>cclass = ConditionOnStartup,
          attrs = [''_manager'' \<mapsto> PManager, ''type_name'' \<mapsto> PStr ''on_startup'',
                   ''id'' \<mapsto> PInt 0],
          device = None, channel = None, param = None, event_type = PNone\<rparr>]\<rparr>"


section \<open>Properties of the event log\<close>

lemma add_event_total: "num_events_total (add_event e log) = num_events_total log + 1"
  by (simp add: add_event_def Let_def)

lemma add_event_length:
  "length (events log) \<le> 1000 \<Longrightarrow> length (events (add_event e log)) \<le> 1000"
  by (simp add: add_event_def Let_def)

lemma add_events_total:
  "num_events_total (add_events es log) = num_events_total log + int (length es)"
  by (induction es arbitrary: log) (simp_all add: add_event_total)

lemma add_events_events:
  "length (events log) \<le> 1000 \<Longrightarrow>
   events (add_events es log) =
     drop (length (events log) + length es - 1000) (events log @ es)"
proof (induction es arbitrary: log)
  case Nil
  then show ?case by simp
next
  case (Cons e es)
  have le: "length (events (add_event e log)) \<le> 1000"
    using Cons.prems by (rule add_event_length)
  have step: "events (add_events (e # es) log) =
      drop (length (events (add_event e log)) + length es - 1000)
        (events (add_event e log) @ es)"
    using Cons.IH [OF le] by simp
  show ?case
  proof (cases "length (events log) < 1000")
    case True
    then have "events (add_event e log) = events log @ [e]"
      by (simp add: add_event_def Let_def)
    with step show ?thesis by simp
  next
    case False
    with Cons.prems have full: "length (events log) = 1000" by simp
    then have "events (add_event e log) = tl (events log) @ [e]"
      by (cases "events log") (simp_all add: add_event_def Let_def)
    with step full show ?thesis
      by (cases "events log") simp_all
  qed
qed

text \<open>
  C4. Starting from the empty event log, 1001 calls of \<open>add_event\<close> leave exactly 1000
  entries, namely all but the oldest one in insertion order, while \<open>num_events_total\<close>
  reports 1001; every call of \<open>add_event\<close>, evicting or not, increases the counter by one.
\<close>

theorem C4_event_log_capacity:
  "length es = 1001 \<Longrightarrow>
     length (events (add_events es Events_init)) = 1000 \<and>
     events (add_events es Events_init) = tl es \<and>
     num_events_total (add_events es Events_init) = 1001 \<and>
     (\<forall>e log. num_events_total (add_event e log) = num_events_total log + 1)"
proof -
  assume n: "length es = 1001"
  have "events (add_events es Events_init) = drop 1 es"
    using add_events_events [of Events_init es] n by (simp add: Events_init_def)
  then have ev: "events (add_events es Events_init) = tl es"
    by (simp add: drop_Suc)
  have tot: "num_events_total (add_events es Events_init) = 1001"
    using add_events_total [of es Events_init] n by (simp add: Events_init_def)
  from ev n tot show ?thesis
    by (simp add: add_event_total)
qed

theorem C4_event_log_capacity_witness:
  "length (map (\<lambda>i. \<lparr>ev_time = int i, ev_time_changed = 0,
        ev_param = \<lparr>param_id = ''STATE'', pvalue = PBool True, last_updated = int i,
          last_changed = 0, param_str = ''True''\<rparr>,
        ev_value = PBool True, ev_formated_value = ''True''\<rparr>) [0..<1001]) = 1001 \<and>
   length (events (add_events (map (\<lambda>i. \<lparr>ev_time = int i, ev_time_changed = 0,
        ev_param = \<lparr>param_id = ''STATE'', pvalue = PBool True, last_updated = int i,
          last_changed = 0, param_str = ''True''\<rparr>,
        ev_value = PBool True, ev_formated_value = ''True''\<rparr>) [0..<1001]) Events_init)) = 1000 \<and>
   num_events_total (add_events (map (\<lambda>i. \<lparr>ev_time = int i, ev_time_changed = 0,
        ev_param = \<lparr>param_id = ''STATE'', pvalue = PBool True, last_updated = int i,
          last_changed = 0, param_str = ''True''\<rparr>,
        ev_value = PBool True, ev_formated_value = ''True''\<rparr>) [0..<1001]) Events_init) = 1001"
proof -
  let ?es = "map (\<lambda>i. \<lparr>ev_time = int i, ev_time_changed = 0,
        ev_param = \<lparr>param_id = ''STATE'', pvalue = PBool True, last_updated = int i,
          last_changed = 0, param_str = ''True''\<rparr>,
        ev_value = PBool True, ev_formated_value = ''True''\<rparr>) [0..<1001]"
  have n: "length ?es = 1001" by simp
  from C4_event_log_capacity [OF n] n show ?thesis by blast
qed

section \<open>The example schedules, written out\<close>

lemmas eval_defs =
  loaded_def load_def read_schedule_config_def schedule_record_def device_event_record_def
  plain_record_def from_config_def setattr_def ascii_def Schedule_def Condition_get_def
  Condition_types_def Condition_def cond_from_config_def Condition_from_config_def
  cond_setattr_def ConditionOnDeviceEvent_from_config_def example_catalogue_def
  example_device_def example_channel_def example_param_def add_condition_def add_def
  getattr_def Scheduler_init_def Let_def




section \<open>Executing a schedule\<close>








section \<open>Device events\<close>



section \<open>The collection of schedules\<close>

lemma exists_in_bounds: "exists sch i = in_bounds (schedules sch) i"
  by (simp add: exists_def list_getitem_def)

lemma exists_iff:
  "exists sch i = (- int (length (schedules sch)) \<le> i \<and> i < int (length (schedules sch)))"
  by (simp add: exists_in_bounds in_bounds_def)

lemma remove_missing:
  "\<not> exists sch i \<Longrightarrow> fits_ssize_t i \<Longrightarrow> remove sch i = Inr sch"
  by (simp add: exists_in_bounds remove_def list_pop_def)

lemma remove_overflow: "\<not> fits_ssize_t i \<Longrightarrow> remove sch i = Inl OverflowError"
  by (simp add: remove_def list_pop_def)

lemma remove_position:
  "k < length (schedules sch) \<Longrightarrow> fits_ssize_t (int k) \<Longrightarrow>
   remove sch (int k) =
     Inr (sch\<lparr>schedules := take k (schedules sch) @ drop (Suc k) (schedules sch)\<rparr>)"
  by (simp add: remove_def list_pop_def in_bounds_def position_def)

lemma add_unset:
  "sdict s ''id'' = Some PNone \<Longrightarrow>
   add sch s =
     Inr (sch\<lparr>schedules :=
            schedules sch @ [s\<lparr>sdict := (sdict s)(''id'' \<mapsto> PInt (int (length (schedules sch))))\<rparr>]\<rparr>)"
  by (simp add: add_def getattr_def Let_def)

lemma add_replace:
  "sdict s ''id'' = Some (PInt (int k)) \<Longrightarrow> k < length (schedules sch) \<Longrightarrow>
   add sch s = Inr (sch\<lparr>schedules := (schedules sch)[k := s]\<rparr>)"
  by (simp add: add_def getattr_def list_setitem_def in_bounds_def position_def)

lemma add_outside:
  "sdict s ''id'' = Some (PInt i) \<Longrightarrow> \<not> exists sch i \<Longrightarrow> add sch s = Inl IndexError"
  by (simp add: add_def getattr_def list_setitem_def exists_in_bounds)

text \<open>
  C5. The code does not keep what the claim says. \<open>remove\<close> deletes the entry and the
  later schedules move down by one position, but their \<open>id\<close> attributes keep the old
  value. After two schedules are added and the first is removed, the remaining schedule
  sits at position 0 with the id 1: adding it again, as saving an edit of it does,
  replaces nothing and raises \<open>IndexError\<close>. With three schedules the same step
  overwrites the entry of the third schedule, which is lost.
\<close>

theorem C5_stale_id_after_remove:
  "add Scheduler_init (named ''a'') = Inr (scheduler_of [with_id (named ''a'') 0]) \<and>
   add (scheduler_of [with_id (named ''a'') 0]) (named ''b'') =
     Inr (scheduler_of [with_id (named ''a'') 0, with_id (named ''b'') 1]) \<and>
   remove (scheduler_of [with_id (named ''a'') 0, with_id (named ''b'') 1]) 0 =
     Inr (scheduler_of [with_id (named ''b'') 1]) \<and>
   get (scheduler_of [with_id (named ''b'') 1]) 0 = Inr (with_id (named ''b'') 1) \<and>
   getattr (with_id (named ''b'') 1) ''id'' = Inr (PInt 1) \<and>
   add (scheduler_of [with_id (named ''b'') 1]) (with_id (named ''b'') 1) = Inl IndexError \<and>
   remove (scheduler_of [with_id (named ''a'') 0, with_id (named ''b'') 1,
                         with_id (named ''c'') 2]) 0 =
     Inr (scheduler_of [with_id (named ''b'') 1, with_id (named ''c'') 2]) \<and>
   add (scheduler_of [with_id (named ''b'') 1, with_id (named ''c'') 2])
       (with_id (named ''b'') 1) =
     Inr (scheduler_of [with_id (named ''b'') 1, with_id (named ''b'') 1])"
  by (simp add: add_def remove_def get_def getattr_def list_getitem_def list_setitem_def
      list_pop_def fits_ssize_t_def in_bounds_def position_def scheduler_of_def
      Scheduler_init_def named_def with_id_def Schedule_def Let_def)

section \<open>Loading the schedule store\<close>

lemma load_conditions_unknown_head:
  "py_getitem c ''type_name'' = Inr tn \<Longrightarrow> Condition_get tn = None \<Longrightarrow>
   load_conditions ccu (c # rest) s = Inl (PMUserError tn)"
  by simp

lemma load_conditions_unknown:
  "c \<in> set cs \<Longrightarrow> py_getitem c ''type_name'' = Inr tn \<Longrightarrow> Condition_get tn = None \<Longrightarrow>
   \<exists>e. load_conditions ccu cs s = Inl e"
proof (induction cs arbitrary: s)
  case Nil
  then show ?case by simp
next
  case (Cons x xs)
  show ?case
  proof (cases "x = c")
    case True
    with Cons.prems show ?thesis by simp
  next
    case False
    with Cons.prems have "c \<in> set xs" by simp
    from Cons.IH [OF this Cons.prems(2,3)]
    have "\<exists>e. load_conditions ccu xs s' = Inl e" for s' .
    then show ?thesis
      by (simp split: sum.splits option.splits)
  qed
qed

lemma from_config_items_unknown:
  "(''conditions'', conds) \<in> set kvs \<Longrightarrow> py_iter conds = Inr cs \<Longrightarrow> c \<in> set cs \<Longrightarrow>
   py_getitem c ''type_name'' = Inr tn \<Longrightarrow> Condition_get tn = None \<Longrightarrow>
   \<exists>e. from_config_items ccu kvs s = Inl e"
proof (induction kvs arbitrary: s)
  case Nil
  then show ?case by simp
next
  case (Cons kv kvs)
  obtain key val where kv: "kv = (key, val)" by (cases kv)
  show ?case
  proof (cases "kv = (''conditions'', conds)")
    case True
    from load_conditions_unknown [OF Cons.prems(3,4,5)]
    obtain e where "load_conditions ccu cs s = Inl e" by blast
    with True Cons.prems(2) show ?thesis by simp
  next
    case False
    with Cons.prems(1) have "(''conditions'', conds) \<in> set kvs" by simp
    from Cons.IH [OF this Cons.prems(2,3,4,5)]
    have "\<exists>e. from_config_items ccu kvs s' = Inl e" for s' .
    then show ?thesis
      by (simp add: kv split: sum.splits)
  qed
qed

lemma load_schedules_failing:
  "cfg \<in> set cfgs \<Longrightarrow> from_config ccu (Schedule PManager) cfg = Inl e \<Longrightarrow>
   \<exists>e'. load_schedules ccu cfgs sch = Inl e'"
proof (induction cfgs arbitrary: sch)
  case Nil
  then show ?case by simp
next
  case (Cons x xs)
  show ?case
  proof (cases "x = cfg")
    case True
    with Cons.prems show ?thesis by simp
  next
    case False
    with Cons.prems have "cfg \<in> set xs" by simp
    from Cons.IH [OF this Cons.prems(2)]
    have "\<exists>e'. load_schedules ccu xs sch' = Inl e'" for sch' .
    then show ?thesis
      by (simp split: sum.splits)
  qed
qed

text \<open>
  C6. If some schedule record of the store has, among its condition records, one whose
  \<open>type_name\<close> is not the name of a condition class, then the lookup of the class
  raises \<open>PMUserError\<close> for that name, \<open>Schedule.from_config\<close> fails on the schedule
  record, and \<open>Scheduler.load\<close> ends the process with exit status 1, whatever else the
  store holds.
\<close>

theorem C6_unknown_type_is_fatal:
  "py_iter store = Inr cfgs \<Longrightarrow> PDict kvs \<in> set cfgs \<Longrightarrow>
   (''conditions'', conds) \<in> set kvs \<Longrightarrow> py_iter conds = Inr cs \<Longrightarrow> c \<in> set cs \<Longrightarrow>
   py_getitem c ''type_name'' = Inr tn \<Longrightarrow> Condition_get tn = None \<Longrightarrow>
     (\<forall>rest s. load_conditions ccu (c # rest) s = Inl (PMUserError tn)) \<and>
     (\<exists>e. from_config ccu (Schedule PManager) (PDict kvs) = Inl e) \<and>
     load ccu (Parsed store) sch = Exits 1"
proof -
  assume it: "py_iter store = Inr cfgs" and rec: "PDict kvs \<in> set cfgs"
    and k: "(''conditions'', conds) \<in> set kvs" and ci: "py_iter conds = Inr cs"
    and c: "c \<in> set cs" and tn: "py_getitem c ''type_name'' = Inr tn"
    and un: "Condition_get tn = None"
  have a: "\<forall>rest s. load_conditions ccu (c # rest) s = Inl (PMUserError tn)"
    using tn un by simp
  from from_config_items_unknown [OF k ci c tn un]
  obtain e where e: "from_config ccu (Schedule PManager) (PDict kvs) = Inl e"
    by (auto simp: from_config_def)
  from load_schedules_failing [OF rec e]
  obtain e' where "load_schedules ccu cfgs sch = Inl e'" by blast
  with it have "load ccu (Parsed store) sch = Exits 1"
    by (simp add: load_def read_schedule_config_def)
  with a e show ?thesis by blast
qed

theorem C6_unknown_type_is_fatal_witness:
  "Condition_get (PStr ''on_sunrise'') = None \<and>
   from_config (Some example_catalogue) (Schedule PManager)
     (schedule_record ''blinds'' [PDict [(''type_name'', PStr ''on_startup'')],
                                  PDict [(''type_name'', PStr ''on_sunrise'')]])
     = Inl (PMUserError (PStr ''on_sunrise'')) \<and>
   load (Some example_catalogue)
     (Parsed (PList [schedule_record ''light'' [device_event_record ''KEQ0000001''],
                     schedule_record ''blinds'' [PDict [(''type_name'', PStr ''on_startup'')],
                                                 PDict [(''type_name'', PStr ''on_sunrise'')]]]))
     Scheduler_init = Exits 1"
proof -
  let ?c = "PDict [(''type_name'', PStr ''on_sunrise'')]"
  let ?conds = "[PDict [(''type_name'', PStr ''on_startup'')], ?c]"
  let ?kvs = "[(''name'', PStr ''blinds''), (''keep_running'', PBool False),
               (''script'', PStr ''blinds.py''), (''conditions'', PList ?conds)]"
  let ?cfgs = "[schedule_record ''light'' [device_event_record ''KEQ0000001''], PDict ?kvs]"
  have un: "Condition_get (PStr ''on_sunrise'') = None"
    by (simp add: Condition_get_def Condition_types_def)
  have fc: "from_config (Some example_catalogue) (Schedule PManager)
      (schedule_record ''blinds'' ?conds) = Inl (PMUserError (PStr ''on_sunrise''))"
    by (simp add: eval_defs)
  have "load (Some example_catalogue) (Parsed (PList ?cfgs)) Scheduler_init = Exits 1"
    using C6_unknown_type_is_fatal [of "PList ?cfgs" ?cfgs ?kvs "PList ?conds" ?conds ?c
        "PStr ''on_sunrise''" "Some example_catalogue" Scheduler_init] un
    by simp
  with un fc show ?thesis by (simp add: schedule_record_def)
qed

section \<open>What \<open>from_config\<close> does to a schedule\<close>

lemma setattr_result:
  "setattr key val s = Inr s' \<Longrightarrow> key \<noteq> ''__dict__'' \<Longrightarrow> key \<noteq> ''conditions'' \<Longrightarrow>
   s' = s\<lparr>sdict := (sdict s)(key \<mapsto> val)\<rparr>"
  by (simp add: setattr_def split: if_splits)

lemma cond_setattr_fields:
  "cond_setattr key val c = Inr c' \<Longrightarrow>
   cclass c' = cclass c \<and> device c' = device c \<and> channel c' = channel c \<and>
   param c' = param c \<and> event_type c' = event_type c"
  by (auto simp: cond_setattr_def split: if_splits pyval.splits)

lemma setattrs_fields:
  "setattrs kvs c = Inr c' \<Longrightarrow>
   cclass c' = cclass c \<and> device c' = device c \<and> channel c' = channel c \<and>
   param c' = param c \<and> event_type c' = event_type c"
proof (induction kvs arbitrary: c)
  case Nil
  then show ?case by simp
next
  case (Cons kv kvs)
  obtain key val where kv: "kv = (key, val)" by (cases kv)
  from Cons.prems kv obtain c1 where c1: "cond_setattr key val c = Inr c1"
    and rest: "setattrs kvs c1 = Inr c'"
    by (cases "cond_setattr key val c") simp_all
  from Cons.IH [OF rest] cond_setattr_fields [OF c1] show ?case by simp
qed

lemma cond_from_config_cclass:
  "cond_from_config ccu c cfg = Inr c' \<Longrightarrow> cclass c' = cclass c"
proof (cases "cclass c = ConditionOnDeviceEvent")
  case True
  assume "cond_from_config ccu c cfg = Inr c'"
  with True show ?thesis
    by (auto simp: cond_from_config_def ConditionOnDeviceEvent_from_config_def
        split: if_splits option.splits sum.splits)
next
  case False
  assume "cond_from_config ccu c cfg = Inr c'"
  with False obtain kvs where "setattrs kvs c = Inr c'"
    by (auto simp: cond_from_config_def Condition_from_config_def split: if_splits sum.splits)
  then show ?thesis by (simp add: setattrs_fields)
qed

lemma add_condition_result:
  "add_condition s c = Inr s' \<Longrightarrow>
   sdict s' = sdict s \<and>
   (\<exists>c'. conditions s' = conditions s @ [c'] \<and> cclass c' = cclass c \<and> device c' = device c \<and>
      channel c' = channel c \<and> param c' = param c \<and> event_type c' = event_type c)"
  by (auto simp: add_condition_def conditions_def Let_def
      split: conditions_attr.splits pyval.splits)

lemma load_conditions_sdict:
  "load_conditions ccu cfgs s = Inr s' \<Longrightarrow> sdict s' = sdict s"
proof (induction cfgs arbitrary: s)
  case Nil
  then show ?case by simp
next
  case (Cons cfg cfgs)
  from Cons.prems obtain c s1 where a: "add_condition s c = Inr s1"
    and rest: "load_conditions ccu cfgs s1 = Inr s'"
    by (auto split: sum.splits option.splits if_splits)
  from Cons.IH [OF rest] add_condition_result [OF a] show ?case by simp
qed

lemma load_conditions_empty:
  "load_conditions ccu cfgs s = Inr s' \<Longrightarrow> cfgs = [] \<Longrightarrow> s' = s"
  by simp

lemma load_conditions_result:
  "load_conditions ccu cfgs s = Inr s' \<Longrightarrow> sdict s ''_manager'' = Some mgr \<Longrightarrow>
   \<exists>new. conditions s' = conditions s @ new \<and> list_all2 (loads_as ccu mgr) cfgs new"
proof (induction cfgs arbitrary: s)
  case Nil
  then show ?case by simp
next
  case (Cons cfg cfgs)
  from Cons.prems obtain tn cls c s1 where tn: "py_getitem cfg ''type_name'' = Inr tn"
    and cls: "Condition_get tn = Some cls"
    and c: "cond_from_config ccu (Condition cls mgr) cfg = Inr c"
    and a: "add_condition s c = Inr s1"
    and rest: "load_conditions ccu cfgs s1 = Inr s'"
    by (auto simp: getattr_def split: sum.splits option.splits if_splits)
  from add_condition_result [OF a] obtain c' where sd: "sdict s1 = sdict s"
    and cs1: "conditions s1 = conditions s @ [c']"
    and f: "cclass c' = cclass c" "device c' = device c" "channel c' = channel c"
      "param c' = param c" "event_type c' = event_type c"
    by blast
  from sd Cons.prems(2) have "sdict s1 ''_manager'' = Some mgr" by simp
  from Cons.IH [OF rest this] obtain new where n: "conditions s' = conditions s1 @ new"
    and l: "list_all2 (loads_as ccu mgr) cfgs new"
    by blast
  have "loads_as ccu mgr cfg c'"
    using tn cls c f by (simp add: loads_as_def record_class_def)
  with l have "list_all2 (loads_as ccu mgr) (cfg # cfgs) (c' # new)" by simp
  moreover from n cs1 have "conditions s' = conditions s @ (c' # new)" by simp
  ultimately show ?case by blast
qed

lemma loads_as_class: "loads_as ccu mgr cfg c \<Longrightarrow> record_class cfg = Some (cclass c)"
  by (auto simp: loads_as_def Condition_def dest: cond_from_config_cclass
      split: option.splits sum.splits)

lemma load_conditions_classes:
  "load_conditions ccu cfgs s = Inr s' \<Longrightarrow>
   \<exists>new. conditions s' = conditions s @ new \<and> map record_class cfgs = map (Some \<circ> cclass) new"
proof (cases cfgs)
  case Nil
  assume "load_conditions ccu cfgs s = Inr s'"
  with Nil show ?thesis by simp
next
  case (Cons cfg rest)
  assume l: "load_conditions ccu cfgs s = Inr s'"
  with Cons obtain mgr where "sdict s ''_manager'' = Some mgr"
    by (auto simp: getattr_def split: sum.splits option.splits)
  from load_conditions_result [OF l this] obtain new
    where n: "conditions s' = conditions s @ new" and r: "list_all2 (loads_as ccu mgr) cfgs new"
    by blast
  from r have "map record_class cfgs = map (Some \<circ> cclass) new"
    by (induction rule: list_all2_induct) (simp_all add: loads_as_class)
  with n show ?thesis by blast
qed

text \<open>
  The loop over the items of a record without the key \<open>__dict__\<close> and with distinct
  keys: every key but \<open>conditions\<close> is stored, nothing else of the instance dictionary
  changes, and the conditions are touched by the key \<open>conditions\<close> only.
\<close>

lemma items_step:
  "from_config_items ccu ((key, val) # kvs) s = Inr s' \<Longrightarrow>
   \<exists>s1. ((key \<noteq> ''conditions'' \<and> setattr key val s = Inr s1) \<or>
         (key = ''conditions'' \<and> (\<exists>cfgs. load_conditions ccu cfgs s = Inr s1))) \<and>
        from_config_items ccu kvs s1 = Inr s'"
  by (auto split: if_splits sum.splits)

lemma items_frame:
  "from_config_items ccu kvs s = Inr s' \<Longrightarrow>
   ''__dict__'' \<notin> fst ` set kvs \<Longrightarrow> k \<notin> fst ` set kvs \<Longrightarrow> sdict s' k = sdict s k"
proof (induction kvs arbitrary: s)
  case Nil
  then show ?case by simp
next
  case (Cons kv kvs)
  obtain key val where kv: "kv = (key, val)" by (cases kv)
  from items_step Cons.prems(1) kv
  obtain s1 where step: "(key \<noteq> ''conditions'' \<and> setattr key val s = Inr s1) \<or>
      (key = ''conditions'' \<and> (\<exists>cfgs. load_conditions ccu cfgs s = Inr s1))"
    and rest: "from_config_items ccu kvs s1 = Inr s'"
    by blast
  from Cons.prems(2) kv have nd: "''__dict__'' \<notin> fst ` set kvs" and kd: "key \<noteq> ''__dict__''"
    by auto
  from Cons.prems(3) kv have nk: "k \<notin> fst ` set kvs" and ne: "k \<noteq> key" by auto
  from step kd ne have "sdict s1 k = sdict s k"
    by (auto dest: setattr_result load_conditions_sdict)
  with Cons.IH [OF rest nd nk] show ?case by simp
qed

lemma items_no_conditions:
  "from_config_items ccu kvs s = Inr s' \<Longrightarrow>
   ''__dict__'' \<notin> fst ` set kvs \<Longrightarrow> ''conditions'' \<notin> fst ` set kvs \<Longrightarrow>
   cond_attr s' = cond_attr s"
proof (induction kvs arbitrary: s)
  case Nil
  then show ?case by simp
next
  case (Cons kv kvs)
  obtain key val where kv: "kv = (key, val)" by (cases kv)
  from Cons.prems(3) kv have nc: "''conditions'' \<notin> fst ` set kvs" and ne: "key \<noteq> ''conditions''"
    by auto
  from items_step Cons.prems(1) kv ne obtain s1 where step: "setattr key val s = Inr s1"
    and rest: "from_config_items ccu kvs s1 = Inr s'"
    by blast
  from Cons.prems(2) kv have nd: "''__dict__'' \<notin> fst ` set kvs" and kd: "key \<noteq> ''__dict__''"
    by auto
  from setattr_result [OF step kd ne] have "cond_attr s1 = cond_attr s" by simp
  with Cons.IH [OF rest nd nc] show ?case by simp
qed

lemma items_store:
  "from_config_items ccu kvs s = Inr s' \<Longrightarrow> distinct (map fst kvs) \<Longrightarrow>
   ''__dict__'' \<notin> fst ` set kvs \<Longrightarrow> (k, v) \<in> set kvs \<Longrightarrow> k \<noteq> ''conditions'' \<Longrightarrow>
   sdict s' k = Some v"
proof (induction kvs arbitrary: s)
  case Nil
  then show ?case by simp
next
  case (Cons kv kvs)
  obtain key val where kv: "kv = (key, val)" by (cases kv)
  from items_step Cons.prems(1) kv
  obtain s1 where step: "(key \<noteq> ''conditions'' \<and> setattr key val s = Inr s1) \<or>
      (key = ''conditions'' \<and> (\<exists>cfgs. load_conditions ccu cfgs s = Inr s1))"
    and rest: "from_config_items ccu kvs s1 = Inr s'"
    by blast
  from Cons.prems(2) kv have d: "distinct (map fst kvs)" and nk: "key \<notin> fst ` set kvs" by auto
  from Cons.prems(3) kv have nd: "''__dict__'' \<notin> fst ` set kvs" and kd: "key \<noteq> ''__dict__''"
    by auto
  show ?case
  proof (cases "k = key")
    case True
    from nk have "(key, v) \<notin> set kvs" by (auto simp: image_iff)
    with Cons.prems(4) kv True have v: "v = val" by simp
    from True Cons.prems(5) step kd have "s1 = s\<lparr>sdict := (sdict s)(key \<mapsto> val)\<rparr>"
      by (auto dest: setattr_result)
    then have "sdict s1 key = Some val" by simp
    with items_frame [OF rest nd nk] True v show ?thesis by simp
  next
    case False
    with Cons.prems(4) kv have "(k, v) \<in> set kvs" by simp
    from Cons.IH [OF rest d nd this Cons.prems(5)] show ?thesis .
  qed
qed

lemma items_conditions:
  "from_config_items ccu kvs s = Inr s' \<Longrightarrow> distinct (map fst kvs) \<Longrightarrow>
   ''__dict__'' \<notin> fst ` set kvs \<Longrightarrow> (''conditions'', v) \<in> set kvs \<Longrightarrow>
   \<exists>cfgs s1 s2. py_iter v = Inr cfgs \<and> load_conditions ccu cfgs s1 = Inr s2 \<and>
     cond_attr s1 = cond_attr s \<and> cond_attr s' = cond_attr s2 \<and>
     (\<forall>k. k \<notin> fst ` set kvs \<longrightarrow> sdict s1 k = sdict s k)"
proof (induction kvs arbitrary: s)
  case Nil
  then show ?case by simp
next
  case (Cons kv kvs)
  obtain key val where kv: "kv = (key, val)" by (cases kv)
  from Cons.prems(2) kv have d: "distinct (map fst kvs)" and nk: "key \<notin> fst ` set kvs" by auto
  from Cons.prems(3) kv have nd: "''__dict__'' \<notin> fst ` set kvs" and kd: "key \<noteq> ''__dict__''"
    by auto
  show ?case
  proof (cases "key = ''conditions''")
    case True
    with nk Cons.prems(4) kv have v: "val = v" by (auto simp: image_iff)
    from Cons.prems(1) kv True v obtain cfgs s2 where it: "py_iter v = Inr cfgs"
      and l: "load_conditions ccu cfgs s = Inr s2"
      and rest: "from_config_items ccu kvs s2 = Inr s'"
      by (auto split: sum.splits)
    from True nk have "''conditions'' \<notin> fst ` set kvs" by simp
    from items_no_conditions [OF rest nd this] have "cond_attr s' = cond_attr s2" .
    with it l show ?thesis by blast
  next
    case False
    with Cons.prems(4) kv have m: "(''conditions'', v) \<in> set kvs" by simp
    from Cons.prems(1) kv False obtain s0 where step: "setattr key val s = Inr s0"
      and rest: "from_config_items ccu kvs s0 = Inr s'"
      by (auto split: if_splits sum.splits)
    from setattr_result [OF step kd False]
    have s0: "s0 = s\<lparr>sdict := (sdict s)(key \<mapsto> val)\<rparr>" .
    from Cons.IH [OF rest d nd m] obtain cfgs s1 s2 where it: "py_iter v = Inr cfgs"
      and l: "load_conditions ccu cfgs s1 = Inr s2"
      and c1: "cond_attr s1 = cond_attr s0" and c2: "cond_attr s' = cond_attr s2"
      and f: "\<forall>k. k \<notin> fst ` set kvs \<longrightarrow> sdict s1 k = sdict s0 k"
      by blast
    from c1 s0 have "cond_attr s1 = cond_attr s" by simp
    moreover from f s0 kv
    have "\<forall>k. k \<notin> fst ` set (kv # kvs) \<longrightarrow> sdict s1 k = sdict s k" by simp
    ultimately show ?thesis using it l c2 by blast
  qed
qed

section \<open>Device-event conditions with stale references\<close>

lemma channel_by_address_error: "channel_by_address d v = Inl e \<Longrightarrow> e = KeyError"
  by (cases v) (auto split: option.splits)



lemma unresolved_from_config:
  assumes "unresolved_reference cat cfg"
  shows "\<exists>c. cond_from_config (Some cat) (Condition ConditionOnDeviceEvent PManager) cfg = Inr c \<and>
           cclass c = ConditionOnDeviceEvent \<and> param c = None \<and> event_type c = PNone \<and>
           attrs c ''to_config'' = None"
proof -
  let ?c0 = "Condition ConditionOnDeviceEvent PManager"
  from assms obtain da where da: "py_getitem cfg ''device_address'' = Inr da"
    by (cases "py_getitem cfg ''device_address''") (simp_all add: unresolved_reference_def)
  have "\<exists>c. ConditionOnDeviceEvent_from_config (Some cat) ?c0 cfg = Inr c \<and>
          cclass c = ConditionOnDeviceEvent \<and> param c = None \<and> event_type c = PNone \<and>
          attrs c ''to_config'' = None"
  proof (cases "query_get cat da")
    case None
    with da show ?thesis
      by (simp add: ConditionOnDeviceEvent_from_config_def Condition_def)
  next
    case (Some d)
    with assms da obtain ca where ca: "py_getitem cfg ''channel_address'' = Inr ca"
      by (cases "py_getitem cfg ''channel_address''") (simp_all add: unresolved_reference_def)
    show ?thesis
    proof (cases "channel_by_address d ca")
      case (Inl e)
      then have "e = KeyError" by (rule channel_by_address_error)
      with Inl da Some ca show ?thesis
        by (simp add: ConditionOnDeviceEvent_from_config_def Condition_def)
    next
      case (Inr ch)
      with assms da Some ca obtain pid where pid: "py_getitem cfg ''param_id'' = Inr pid"
        by (cases "py_getitem cfg ''param_id''") (simp_all add: unresolved_reference_def)
      with assms da Some ca Inr have "values_get ch pid = None"
        by (simp add: unresolved_reference_def)
      with da Some ca Inr pid show ?thesis
        by (simp add: ConditionOnDeviceEvent_from_config_def Condition_def)
    qed
  qed
  then show ?thesis
    by (simp add: cond_from_config_def Condition_def)
qed










text \<open>
  Without a connection to the CCU, \<open>manager.ccu\<close> is \<open>None\<close> and \<open>from_config\<close>
  of a device-event condition raises for every record.
\<close>

lemma from_config_unconnected:
  "cond_from_config None (Condition ConditionOnDeviceEvent PManager) cfg = Inl AttributeError"
  by (simp add: cond_from_config_def ConditionOnDeviceEvent_from_config_def Condition_def)




section \<open>Saving conditions with stale references\<close>

lemma inert_to_config:
  "cclass c = ConditionOnDeviceEvent \<Longrightarrow> device c = None \<or> channel c = None \<or> param c = None \<Longrightarrow>
   \<exists>e. cond_to_config c = Inl e"
  by (auto simp: cond_to_config_def ConditionOnDeviceEvent_to_config_def split: option.splits)

lemma inert_to_config_error:
  "cclass c = ConditionOnDeviceEvent \<Longrightarrow> device c = None \<or> channel c = None \<or> param c = None \<Longrightarrow>
   attrs c ''to_config'' = None \<Longrightarrow> cond_to_config c = Inl AttributeError"
  by (auto simp: cond_to_config_def ConditionOnDeviceEvent_to_config_def split: option.splits)

lemma conds_to_config_failing:
  "c \<in> set cs \<Longrightarrow> cond_to_config c = Inl e \<Longrightarrow> \<exists>e'. conds_to_config cs = Inl e'"
proof (induction cs)
  case Nil
  then show ?case by simp
next
  case (Cons x xs)
  then show ?case
    by (cases "x = c") (auto split: sum.splits)
qed

lemma to_config_failing:
  assumes "c \<in> set (conditions s)" "cond_to_config c = Inl e"
  shows "\<exists>e'. to_config s = Inl e'"
proof -
  from assms(1) obtain js cs where o: "cond_attr s = Objects js cs" and c: "c \<in> set cs"
    by (cases "cond_attr s") (simp_all add: conditions_def)
  from conds_to_config_failing [OF c assms(2)]
  obtain e' where "conds_to_config cs = Inl e'" ..
  with o have "\<exists>e''. conditions_to_config s = Inl e''"
    by (simp add: conditions_to_config_def)
  then show ?thesis
    by (auto simp: to_config_def split: sum.splits)
qed

lemma schedules_to_config_failing:
  "s \<in> set ss \<Longrightarrow> to_config s = Inl e \<Longrightarrow> \<exists>e'. schedules_to_config ss = Inl e'"
proof (induction ss)
  case Nil
  then show ?case by simp
next
  case (Cons x xs)
  then show ?case
    by (cases "x = s") (auto split: sum.splits)
qed

text \<open>
  C10. A device-event condition whose device, channel or parameter is \<open>None\<close> cannot be
  written back: \<open>to_config\<close> raises (\<open>AttributeError\<close>, from reading an attribute of
  \<open>None\<close>), so does \<open>to_config\<close> of a schedule that holds it, and \<open>Scheduler.save\<close>
  fails for every collection with such a schedule. The condition that loading a stale
  record leaves behind is of this kind.
\<close>

theorem C10_inert_cannot_be_saved:
  "(cclass c = ConditionOnDeviceEvent \<and> (device c = None \<or> channel c = None \<or> param c = None) \<longrightarrow>
      (\<exists>e. cond_to_config c = Inl e) \<and>
      (attrs c ''to_config'' = None \<longrightarrow> cond_to_config c = Inl AttributeError) \<and>
      (c \<in> set (conditions s) \<longrightarrow> (\<exists>e. to_config s = Inl e)) \<and>
      (c \<in> set (conditions s) \<and> s \<in> set (schedules sch) \<longrightarrow> (\<exists>e. save sch = Inl e))) \<and>
   (unresolved_reference cat cfg \<longrightarrow>
      (\<exists>c'. cond_from_config (Some cat) (Condition ConditionOnDeviceEvent PManager) cfg = Inr c' \<and>
            cond_to_config c' = Inl AttributeError))"
proof (intro conjI impI)
  assume h: "cclass c = ConditionOnDeviceEvent \<and>
      (device c = None \<or> channel c = None \<or> param c = None)"
  then have k: "cclass c = ConditionOnDeviceEvent"
    and n: "device c = None \<or> channel c = None \<or> param c = None" by simp_all
  from inert_to_config [OF k n] obtain e where e: "cond_to_config c = Inl e" ..
  then show "\<exists>e. cond_to_config c = Inl e" ..
  show "cond_to_config c = Inl AttributeError" if "attrs c ''to_config'' = None"
    using k n that by (rule inert_to_config_error)
  have ts: "\<exists>e. to_config s = Inl e" if "c \<in> set (conditions s)"
    using that e by (rule to_config_failing)
  then show "\<exists>e. to_config s = Inl e" if "c \<in> set (conditions s)"
    using that .
  show "\<exists>e. save sch = Inl e" if "c \<in> set (conditions s) \<and> s \<in> set (schedules sch)"
  proof -
    from that ts obtain e' where "to_config s = Inl e'" by blast
    from schedules_to_config_failing [OF _ this, of "schedules sch"] that
    obtain e'' where "schedules_to_config (schedules sch) = Inl e''" by blast
    then show ?thesis by (simp add: save_def)
  qed
next
  assume "unresolved_reference cat cfg"
  from unresolved_from_config [OF this]
  obtain c' where c': "cond_from_config (Some cat) (Condition ConditionOnDeviceEvent PManager) cfg = Inr c'"
    and k: "cclass c' = ConditionOnDeviceEvent" and p: "param c' = None"
    and a: "attrs c' ''to_config'' = None"
    by blast
  from p have "device c' = None \<or> channel c' = None \<or> param c' = None" by simp
  from inert_to_config_error [OF k this a] c'
  show "\<exists>c'. cond_from_config (Some cat) (Condition ConditionOnDeviceEvent PManager) cfg = Inr c' \<and>
      cond_to_config c' = Inl AttributeError"
    by blast
qed

theorem C10_inert_cannot_be_saved_witness:
  "cond_to_config (Condition ConditionOnDeviceEvent PManager) = Inl AttributeError \<and>
   (\<exists>e. save (scheduler_of
      [(Schedule PManager)\<lparr>cond_attr :=
          Objects [] [Condition ConditionOnDeviceEvent PManager]\<rparr>]) = Inl e) \<and>
   (\<exists>c'. cond_from_config (Some example_catalogue) (Condition ConditionOnDeviceEvent PManager)
           (device_event_record ''GONE000001'') = Inr c' \<and>
         cond_to_config c' = Inl AttributeError) \<and>
   save (scheduler_of (loaded (Some example_catalogue)
        (PList
          [schedule_record ''backup'' [plain_record ''on_startup''],
           schedule_record ''light'' [device_event_record ''GONE000001'']]))) =
     Inl AttributeError"
proof -
  let ?c = "Condition ConditionOnDeviceEvent PManager"
  let ?s = "(Schedule PManager)\<lparr>cond_attr := Objects [] [?c]\<rparr>"
  let ?sch = "scheduler_of [?s]"
  have k: "cclass ?c = ConditionOnDeviceEvent \<and>
      (device ?c = None \<or> channel ?c = None \<or> param ?c = None)"
    by (simp add: Condition_def)
  have a: "attrs ?c ''to_config'' = None" by (simp add: Condition_def)
  have m: "?c \<in> set (conditions ?s) \<and> ?s \<in> set (schedules ?sch)"
    by (simp add: scheduler_of_def conditions_def)
  have un: "unresolved_reference example_catalogue (device_event_record ''GONE000001'')"
    by (simp add: unresolved_reference_def device_event_record_def example_catalogue_def
        example_device_def)
  note th = C10_inert_cannot_be_saved [of ?c ?s ?sch example_catalogue
      "device_event_record ''GONE000001''"]
  from th k a have 1: "cond_to_config ?c = Inl AttributeError" by blast
  from th k m have 2: "\<exists>e. save ?sch = Inl e" by blast
  from th un have 3: "\<exists>c'. cond_from_config (Some example_catalogue) ?c
           (device_event_record ''GONE000001'') = Inr c' \<and>
         cond_to_config c' = Inl AttributeError" by blast
  have 4: "save (scheduler_of (loaded (Some example_catalogue)
        (PList
          [schedule_record ''backup'' [plain_record ''on_startup''],
           schedule_record ''light'' [device_event_record ''GONE000001'']]))) =
     Inl AttributeError"
    by (simp add: eval_defs scheduler_of_def save_def to_config_def conditions_to_config_def
        cond_to_config_def ConditionOnDeviceEvent_to_config_def Condition_to_config_def
        get_type_name_def)
  from 1 2 3 4 show ?thesis by blast
qed

section \<open>What loading a schedule record changes\<close>

lemma conditions_cong: "cond_attr s = cond_attr s' \<Longrightarrow> conditions s = conditions s'"
  by (simp add: conditions_def)

text \<open>
  C8 (as amended). \<open>Schedule.from_config\<close> ignores no key. Take a record whose keys are
  distinct, as the keys of a dict are, and none of which is \<open>__dict__\<close>, and on which
  \<open>from_config\<close> returns. Every key of the record other than \<open>conditions\<close> is stored
  with \<open>setattr\<close> as the attribute of that name, with the value of the record: a key
  that names no attribute of the class becomes a new attribute of the schedule, and the
  keys \<open>id\<close>, \<open>name\<close>, \<open>keep_running\<close>, \<open>script\<close>, \<open>last_triggered\<close>,
  \<open>_runner\<close> and \<open>_manager\<close> overwrite those attributes. Every attribute whose name
  is not a key of the record is as before. The attribute \<open>conditions\<close> is as before
  when the record has no key \<open>conditions\<close>; when it has one, one condition is appended
  for each condition record, in order, of the class that the record's \<open>type_name\<close>
  names.
\<close>

theorem C8_from_config_frame:
  "from_config ccu s (PDict kvs) = Inr s' \<Longrightarrow> distinct (map fst kvs) \<Longrightarrow>
   ''__dict__'' \<notin> fst ` set kvs \<Longrightarrow>
     (\<forall>k v. (k, v) \<in> set kvs \<and> k \<noteq> ''conditions'' \<longrightarrow> sdict s' k = Some v) \<and>
     (\<forall>k. k \<notin> fst ` set kvs \<longrightarrow> sdict s' k = sdict s k) \<and>
     (''conditions'' \<notin> fst ` set kvs \<longrightarrow> cond_attr s' = cond_attr s) \<and>
     (\<forall>v. (''conditions'', v) \<in> set kvs \<longrightarrow>
        (\<exists>cfgs new. py_iter v = Inr cfgs \<and> conditions s' = conditions s @ new \<and>
           map record_class cfgs = map (Some \<circ> cclass) new))"
proof -
  assume fc: "from_config ccu s (PDict kvs) = Inr s'" and d: "distinct (map fst kvs)"
    and nd: "''__dict__'' \<notin> fst ` set kvs"
  from fc have items: "from_config_items ccu kvs s = Inr s'"
    by (simp add: from_config_def)
  have stored: "\<forall>k v. (k, v) \<in> set kvs \<and> k \<noteq> ''conditions'' \<longrightarrow> sdict s' k = Some v"
    using items_store [OF items d nd] by blast
  have frame: "\<forall>k. k \<notin> fst ` set kvs \<longrightarrow> sdict s' k = sdict s k"
    using items_frame [OF items nd] by blast
  have same: "''conditions'' \<notin> fst ` set kvs \<longrightarrow> cond_attr s' = cond_attr s"
    using items_no_conditions [OF items nd] by blast
  have appended: "\<forall>v. (''conditions'', v) \<in> set kvs \<longrightarrow>
        (\<exists>cfgs new. py_iter v = Inr cfgs \<and> conditions s' = conditions s @ new \<and>
           map record_class cfgs = map (Some \<circ> cclass) new)"
  proof (intro allI impI)
    fix v assume "(''conditions'', v) \<in> set kvs"
    from items_conditions [OF items d nd this]
    obtain cfgs s1 s2 where it: "py_iter v = Inr cfgs"
      and l: "load_conditions ccu cfgs s1 = Inr s2"
      and c1: "cond_attr s1 = cond_attr s" and c2: "cond_attr s' = cond_attr s2"
      by blast
    from load_conditions_classes [OF l] obtain new
      where n: "conditions s2 = conditions s1 @ new"
        and r: "map record_class cfgs = map (Some \<circ> cclass) new"
      by blast
    from n conditions_cong [OF c1] conditions_cong [OF c2]
    have "conditions s' = conditions s @ new" by simp
    with it r show "\<exists>cfgs new. py_iter v = Inr cfgs \<and> conditions s' = conditions s @ new \<and>
           map record_class cfgs = map (Some \<circ> cclass) new"
      by blast
  qed
  from stored frame same appended show ?thesis by (intro conjI)
qed

theorem C8_from_config_frame_witness:
  "from_config None (Schedule PManager) (PDict coloured_record) = Inr coloured_schedule \<and>
   distinct (map fst coloured_record) \<and>
   ''__dict__'' \<notin> fst ` set coloured_record \<and>
   sdict coloured_schedule ''name'' = Some (PStr ''light'') \<and>
   sdict coloured_schedule ''colour'' = Some (PStr ''red'') \<and>
   sdict coloured_schedule ''_runner'' = Some (PStr ''x'') \<and>
   sdict coloured_schedule ''script'' = sdict (Schedule PManager) ''script'' \<and>
   sdict coloured_schedule ''shape'' = sdict (Schedule PManager) ''shape'' \<and>
   map cclass (conditions coloured_schedule) = [ConditionOnStartup]"
proof -
  have fc: "from_config None (Schedule PManager) (PDict coloured_record) = Inr coloured_schedule"
    unfolding coloured_record_def coloured_schedule_def
    apply (simp add: eval_defs)
    apply (auto simp: fun_eq_iff)
    done
  have d: "distinct (map fst coloured_record)" by (simp add: coloured_record_def)
  have u: "''__dict__'' \<notin> fst ` set coloured_record" by (simp add: coloured_record_def)
  note th = C8_from_config_frame [OF fc d u]
  from th have st: "\<forall>k v. (k, v) \<in> set coloured_record \<and> k \<noteq> ''conditions'' \<longrightarrow>
      sdict coloured_schedule k = Some v"
    by (rule conjunct1)
  from th have fr: "\<forall>k. k \<notin> fst ` set coloured_record \<longrightarrow>
      sdict coloured_schedule k = sdict (Schedule PManager) k"
    by (rule conjunct2 [THEN conjunct1])
  from th have ap: "\<forall>v. (''conditions'', v) \<in> set coloured_record \<longrightarrow>
        (\<exists>cfgs new. py_iter v = Inr cfgs \<and>
           conditions coloured_schedule = conditions (Schedule PManager) @ new \<and>
           map record_class cfgs = map (Some \<circ> cclass) new)"
    by (rule conjunct2 [THEN conjunct2, THEN conjunct2])
  from st [rule_format, of "''name''" "PStr ''light''"]
  have 1: "sdict coloured_schedule ''name'' = Some (PStr ''light'')"
    by (simp add: coloured_record_def)
  from st [rule_format, of "''colour''" "PStr ''red''"]
  have 2: "sdict coloured_schedule ''colour'' = Some (PStr ''red'')"
    by (simp add: coloured_record_def)
  from st [rule_format, of "''_runner''" "PStr ''x''"]
  have 3: "sdict coloured_schedule ''_runner'' = Some (PStr ''x'')"
    by (simp add: coloured_record_def)
  from fr [rule_format, of "''script''"]
  have 4: "sdict coloured_schedule ''script'' = sdict (Schedule PManager) ''script''"
    by (simp add: coloured_record_def)
  from fr [rule_format, of "''shape''"]
  have 5: "sdict coloured_schedule ''shape'' = sdict (Schedule PManager) ''shape''"
    by (simp add: coloured_record_def)
  from ap [rule_format, of "PList [plain_record ''on_startup'']"]
  obtain new where n: "conditions coloured_schedule = conditions (Schedule PManager) @ new"
    and c: "map record_class [plain_record ''on_startup''] = map (Some \<circ> cclass) new"
    by (auto simp: coloured_record_def)
  have "conditions (Schedule PManager) = []" by (simp add: conditions_def Schedule_def)
  with n have n': "conditions coloured_schedule = new" by simp
  have "record_class (plain_record ''on_startup'') = Some ConditionOnStartup"
    by (simp add: record_class_def plain_record_def Condition_get_def Condition_types_def)
  with c have "map (Some \<circ> cclass) new = [Some ConditionOnStartup]" by simp
  then have "map cclass new = [ConditionOnStartup]"
    by (cases new) auto
  with n' have 6: "map cclass (conditions coloured_schedule) = [ConditionOnStartup]" by simp
  from fc d u 1 2 3 4 5 6 show ?thesis by (intro conjI)
qed

text \<open>
  The claim as stated fails: a record with the unknown key \<open>colour\<close> and the key
  \<open>_runner\<close> loads; the schedule gets a new attribute \<open>colour\<close>, and its runner,
  which is none of the fields the claim lists, is overwritten.
\<close>

theorem C8_from_config_frame_counterexample:
  "from_config None (Schedule PManager)
      (PDict [(''name'', PStr ''light''), (''colour'', PStr ''red''), (''_runner'', PStr ''x'')]) =
     Inr ((Schedule PManager)\<lparr>sdict := (sdict (Schedule PManager))
            (''name'' \<mapsto> PStr ''light'', ''colour'' \<mapsto> PStr ''red'',
             ''_runner'' \<mapsto> PStr ''x'')\<rparr>) \<and>
   sdict (Schedule PManager) ''colour'' = None \<and>
   sdict ((Schedule PManager)\<lparr>sdict := (sdict (Schedule PManager))
            (''name'' \<mapsto> PStr ''light'', ''colour'' \<mapsto> PStr ''red'',
             ''_runner'' \<mapsto> PStr ''x'')\<rparr>) ''colour'' = Some (PStr ''red'') \<and>
   sdict (Schedule PManager) ''_runner'' = Some PNone \<and>
   sdict ((Schedule PManager)\<lparr>sdict := (sdict (Schedule PManager))
            (''name'' \<mapsto> PStr ''light'', ''colour'' \<mapsto> PStr ''red'',
             ''_runner'' \<mapsto> PStr ''x'')\<rparr>) ''_runner'' = Some (PStr ''x'')"
  by (simp add: from_config_def setattr_def ascii_def Schedule_def)

section \<open>Writing a schedule and loading it again\<close>








section \<open>The background loop\<close>

lemma execute_matching_calls:
  "execute_matching now cls i ss rs = (e, ss', rs', tr) \<Longrightarrow> c \<in> set tr \<Longrightarrow> fst c = cls"
proof (induction ss arbitrary: i rs e ss' rs' tr)
  case Nil
  then show ?case by simp
next
  case (Cons s ss)
  show ?case
  proof (cases "has_condition_type cls s")
    case (Inl err)
    with Cons.prems show ?thesis by simp
  next
    case (Inr matched)
    show ?thesis
    proof (cases matched)
      case False
      with Inr Cons.prems(1) obtain ss1 where
        "execute_matching now cls (Suc i) ss rs = (e, ss1, rs', tr)"
        by (auto split: prod.splits)
      from Cons.IH [OF this Cons.prems(2)] show ?thesis .
    next
      case True
      obtain e1 s1 rs1 where ex: "execute now s rs = (e1, s1, rs1)"
        by (cases "execute now s rs") auto
      show ?thesis
      proof (cases e1)
        case (Some err)
        with Inr True ex Cons.prems show ?thesis by auto
      next
        case None
        with Inr True ex Cons.prems(1) obtain ss1 tr1 where
          r: "execute_matching now cls (Suc i) ss rs1 = (e, ss1, rs', tr1)"
          and tr: "tr = (cls, i) # tr1"
          by (auto split: prod.splits)
        show ?thesis
        proof (cases "c = (cls, i)")
          case True
          then show ?thesis by simp
        next
          case False
          with tr Cons.prems(2) have "c \<in> set tr1" by simp
          from Cons.IH [OF r this] show ?thesis .
        qed
      qed
    qed
  qed
qed

text \<open>
  A flag that is set stays set, and no later pass calls \<open>execute\<close> for its phase.
\<close>

lemma run_iteration_startup_done:
  assumes S: "on_startup_executed sch"
    and R: "run_iteration now ev sch rs = (sch', rs', tr)"
  shows "on_startup_executed sch' \<and> (\<forall>c \<in> set tr. fst c \<noteq> ConditionOnStartup)"
proof (cases "\<not> on_ccu_init_executed sch \<and> ev")
  case False
  with S R show ?thesis by (auto simp: run_iteration_def)
next
  case True
  obtain e2 ss2 rs2 tr2 where
    em: "execute_matching now ConditionOnCCUInitialized 0 (schedules sch) rs = (e2, ss2, rs2, tr2)"
    by (cases "execute_matching now ConditionOnCCUInitialized 0 (schedules sch) rs") auto
  from S True em R have "on_startup_executed sch'" and "tr = tr2"
    by (cases e2; auto simp: run_iteration_def)+
  moreover have "fst c \<noteq> ConditionOnStartup" if "c \<in> set tr2" for c
    using execute_matching_calls [OF em that] by simp
  ultimately show ?thesis by blast
qed

lemma run_iteration_ccu_init_done:
  assumes C: "on_ccu_init_executed sch"
    and R: "run_iteration now ev sch rs = (sch', rs', tr)"
  shows "on_ccu_init_executed sch' \<and> (\<forall>c \<in> set tr. fst c \<noteq> ConditionOnCCUInitialized)"
proof (cases "on_startup_executed sch")
  case True
  with C R show ?thesis by (auto simp: run_iteration_def)
next
  case False
  obtain e1 ss1 rs1 tr1 where
    em: "execute_matching now ConditionOnStartup 0 (schedules sch) rs = (e1, ss1, rs1, tr1)"
    by (cases "execute_matching now ConditionOnStartup 0 (schedules sch) rs") auto
  from C False em R have "on_ccu_init_executed sch'" and "tr = tr1"
    by (cases e1; auto simp: run_iteration_def)+
  moreover have "fst c \<noteq> ConditionOnCCUInitialized" if "c \<in> set tr1" for c
    using execute_matching_calls [OF em that] by simp
  ultimately show ?thesis by blast
qed

lemma run_startup_done:
  "on_startup_executed sch \<Longrightarrow> run ts sch rs = (sch', rs', tr) \<Longrightarrow>
   on_startup_executed sch' \<and> (\<forall>c \<in> set tr. fst c \<noteq> ConditionOnStartup)"
proof (induction ts arbitrary: sch rs sch' rs' tr)
  case Nil
  then show ?case by simp
next
  case (Cons t ts)
  obtain sch1 rs1 tr1 where
    it: "run_iteration (tick_now t) (tick_events_initialized t) sch
           (threads_finish (tick_now t) (tick_finished t) rs) = (sch1, rs1, tr1)"
    by (metis prod_cases3)
  obtain sch2 rs2 tr2 where rest: "run ts sch1 rs1 = (sch2, rs2, tr2)"
    by (metis prod_cases3)
  from Cons.prems(2) it rest have eq: "sch' = sch2" "tr = tr1 @ tr2" by simp_all
  from run_iteration_startup_done [OF Cons.prems(1) it]
  have a: "on_startup_executed sch1" "\<forall>c \<in> set tr1. fst c \<noteq> ConditionOnStartup"
    by simp_all
  from Cons.IH [OF a(1) rest] a(2) eq show ?case by auto
qed

lemma run_ccu_init_done:
  "on_ccu_init_executed sch \<Longrightarrow> run ts sch rs = (sch', rs', tr) \<Longrightarrow>
   on_ccu_init_executed sch' \<and> (\<forall>c \<in> set tr. fst c \<noteq> ConditionOnCCUInitialized)"
proof (induction ts arbitrary: sch rs sch' rs' tr)
  case Nil
  then show ?case by simp
next
  case (Cons t ts)
  obtain sch1 rs1 tr1 where
    it: "run_iteration (tick_now t) (tick_events_initialized t) sch
           (threads_finish (tick_now t) (tick_finished t) rs) = (sch1, rs1, tr1)"
    by (metis prod_cases3)
  obtain sch2 rs2 tr2 where rest: "run ts sch1 rs1 = (sch2, rs2, tr2)"
    by (metis prod_cases3)
  from Cons.prems(2) it rest have eq: "sch' = sch2" "tr = tr1 @ tr2" by simp_all
  from run_iteration_ccu_init_done [OF Cons.prems(1) it]
  have a: "on_ccu_init_executed sch1" "\<forall>c \<in> set tr1. fst c \<noteq> ConditionOnCCUInitialized"
    by simp_all
  from Cons.IH [OF a(1) rest] a(2) eq show ?case by auto
qed

lemma loaded_broken_store:
  "loaded None broken_store =
     [\<lparr>sdict = [''_manager'' \<mapsto> PManager, ''id'' \<mapsto> PInt 0, ''name'' \<mapsto> PStr ''backup'',
                ''keep_running'' \<mapsto> PBool False, ''script'' \<mapsto> PStr ''backup.py'',
                ''last_triggered'' \<mapsto> PNone, ''_runner'' \<mapsto> PNone],
       cond_attr = Objects []
         [\<lparr>cclass = ConditionOnStartup,
           attrs = [''_manager'' \<mapsto> PManager, ''type_name'' \<mapsto> PStr ''on_startup'',
                    ''id'' \<mapsto> PInt 0],
           device = None, channel = None, param = None, event_type = PNone\<rparr>]\<rparr>,
      \<lparr>sdict = [''_manager'' \<mapsto> PManager, ''id'' \<mapsto> PInt 1, ''name'' \<mapsto> PStr ''broken'',
                ''keep_running'' \<mapsto> PBool False, ''script'' \<mapsto> PStr ''broken.py'',
                ''last_triggered'' \<mapsto> PNone, ''_runner'' \<mapsto> PStr ''x''],
       cond_attr = Objects []
         [\<lparr>cclass = ConditionOnStartup,
           attrs = [''_manager'' \<mapsto> PManager, ''type_name'' \<mapsto> PStr ''on_startup'',
                    ''id'' \<mapsto> PInt 0],
           device = None, channel = None, param = None, event_type = PNone\<rparr>]\<rparr>]"
  unfolding broken_store_def
  apply (simp add: eval_defs)
  apply (auto simp: fun_eq_iff)
  done

text \<open>
  C3. The code does not keep what the claim says. \<open>Scheduler.run\<close> sets the flag of a
  phase after the loop over the matching schedules, inside the \<open>try\<close> block, so an
  exception in \<open>execute\<close> leaves the flag unset and the next pass runs the whole phase
  again. The store here holds a schedule for startup and, after it, one whose record sets
  \<open>_runner\<close> to a string. In the first pass the first schedule is launched and the
  second makes \<open>execute\<close> raise; the first runner ends; the second pass launches the
  first schedule again. After two passes the startup phase has called \<open>execute\<close> twice
  on each schedule, has started two runners for the script of the first, and its flag is
  still unset.
\<close>

theorem C3_startup_phase_repeats:
  "map (\<lambda>s. (sdict s ''name'', sdict s ''_runner'')) (loaded None broken_store) =
     [(Some (PStr ''backup''), Some PNone), (Some (PStr ''broken''), Some (PStr ''x''))] \<and>
   snd (snd (run two_passes (scheduler_of (loaded None broken_store)) [])) =
     [(ConditionOnStartup, 0), (ConditionOnStartup, 1),
      (ConditionOnStartup, 0), (ConditionOnStartup, 1)] \<and>
   map (\<lambda>r. (runner_script r, started r))
     (fst (snd (run two_passes (scheduler_of (loaded None broken_store)) []))) =
     [(PStr ''backup.py'', 10), (PStr ''backup.py'', 20)] \<and>
   on_startup_executed (fst (run two_passes (scheduler_of (loaded None broken_store)) [])) =
     False"
  unfolding loaded_broken_store
  by (simp add: two_passes_def scheduler_of_def Scheduler_init_def
      run_iteration_def execute_def is_running_def is_alive_def has_condition_type_def
      getattr_def ScriptRunner_def start_def add_runner_def run_finished_def Let_def)


end
